theory Spec2Isabelle
  imports Complex_Main "HOL-Library.Char_ord" "HOL-Library.List_Lexorder"
begin

section \<open>The user-profile service: errors, validation, store and routes\<close>

text \<open>
  The service is an Express application over a PostgreSQL table \<open>users\<close>. A request
  runs the route's \<open>validateRequest\<close> middlewares, then the route handler; whatever one
  of them throws is handed to \<open>errorHandler\<close>, which writes the error response (the
  framework is taken to forward what an asynchronous handler throws).

  What the source takes from outside is a parameter of the model, collected in the
  record \<open>env\<close>: the process environment (\<open>NODE_ENV\<close>), the primitives of the
  validation library (the email and GUID grammars, its conversion of a string to a
  number, its message texts), the store's reading of a text as an integer, the
  driver's reading of a stored timestamp, the identifier generator \<open>uuidv4\<close> and the
  stack trace a new error captures.
\<close>

subsection \<open>The process environment and the library primitives\<close>

record env =
  NODE_ENV :: "string option"
  is_email :: "string \<Rightarrow> bool"
  is_guid :: "string \<Rightarrow> bool"
  joi_number :: "string \<Rightarrow> rat option"
  joi_message :: "string \<Rightarrow> string \<Rightarrow> string"
  pg_int :: "string \<Rightarrow> int option"
  pg_timestamp :: "string \<Rightarrow> string"
  uuidv4 :: "nat \<Rightarrow> string"
  stack_trace :: string

subsection \<open>errorHandler.ts: the error classes\<close>

text \<open>
  \<open>HttpError\<close> extends the built-in \<open>Error\<close>; the five other classes extend
  \<open>HttpError\<close> and fix the status code and the code. The constructor of \<open>Error\<close>
  creates \<open>message\<close> (and the engine creates \<open>stack\<close>) as own properties that are
  not enumerable; \<open>statusCode\<close>, \<open>status\<close> and \<open>code\<close> are assigned in the
  constructor of \<open>HttpError\<close> and are own, enumerable properties; \<open>name\<close> is not an
  own property at all (it is inherited, with the value \<open>Error\<close>).
\<close>

datatype error_class =
  HttpErrorC | NotFoundErrorC | ValidationErrorC | UnauthorizedErrorC | ForbiddenErrorC
  | ConflictErrorC

record http_error =
  cls :: error_class
  message :: string
  stack :: string
  statusCode :: int
  status :: string
  code :: "string option"

text \<open>A thrown value: \<open>Http h\<close> is an instance of \<open>HttpError\<close> or of a subclass
  (\<open>err instanceof HttpError\<close> holds), \<open>Other m\<close> is any other error, of which only
  the message \<open>m\<close> is read.\<close>

datatype thrown = Http http_error | Other string

text \<open>\<open>new HttpError(message, statusCode = 500, code?)\<close>; an omitted argument is
  \<open>None\<close>.\<close>

definition HttpError_as :: "env \<Rightarrow> error_class \<Rightarrow> string \<Rightarrow> int option \<Rightarrow> string option \<Rightarrow> http_error" where
  "HttpError_as e c msg sc cd =
     (let statusCode = (case sc of None \<Rightarrow> 500 | Some n \<Rightarrow> n)
      in \<lparr>cls = c, message = msg, stack = stack_trace e, statusCode = statusCode,
          status = (if statusCode \<ge> 400 \<and> statusCode < 500 then ''fail'' else ''error''),
          code = cd\<rparr>)"

definition HttpError :: "env \<Rightarrow> string \<Rightarrow> int option \<Rightarrow> string option \<Rightarrow> http_error" where
  "HttpError e msg sc cd = HttpError_as e HttpErrorC msg sc cd"

definition NotFoundError :: "env \<Rightarrow> string option \<Rightarrow> http_error" where
  "NotFoundError e msg =
     HttpError_as e NotFoundErrorC (case msg of None \<Rightarrow> ''Resource not found'' | Some m \<Rightarrow> m)
       (Some 404) (Some ''NOT_FOUND'')"

definition ValidationError :: "env \<Rightarrow> string option \<Rightarrow> http_error" where
  "ValidationError e msg =
     HttpError_as e ValidationErrorC (case msg of None \<Rightarrow> ''Validation failed'' | Some m \<Rightarrow> m)
       (Some 400) (Some ''VALIDATION_ERROR'')"

definition UnauthorizedError :: "env \<Rightarrow> string option \<Rightarrow> http_error" where
  "UnauthorizedError e msg =
     HttpError_as e UnauthorizedErrorC (case msg of None \<Rightarrow> ''Unauthorized'' | Some m \<Rightarrow> m)
       (Some 401) (Some ''UNAUTHORIZED'')"

definition ForbiddenError :: "env \<Rightarrow> string option \<Rightarrow> http_error" where
  "ForbiddenError e msg =
     HttpError_as e ForbiddenErrorC (case msg of None \<Rightarrow> ''Forbidden'' | Some m \<Rightarrow> m)
       (Some 403) (Some ''FORBIDDEN'')"

definition ConflictError :: "env \<Rightarrow> string option \<Rightarrow> http_error" where
  "ConflictError e msg =
     HttpError_as e ConflictErrorC (case msg of None \<Rightarrow> ''Conflict'' | Some m \<Rightarrow> m)
       (Some 409) (Some ''CONFLICT'')"

text \<open>\<open>err instanceof C\<close>: every instance is an instance of \<open>HttpError\<close> and of its
  own class; a value that is not an \<open>HttpError\<close> is an instance of none of the six.\<close>

fun instanceof :: "thrown \<Rightarrow> error_class \<Rightarrow> bool" where
  "instanceof (Http h) c = (c = HttpErrorC \<or> cls h = c)"
| "instanceof (Other m) c = False"

subsection \<open>errorHandler.ts: the global error handler\<close>

text \<open>
  The handler works on \<open>error\<close>, typed \<open>AppError\<close>: an object whose properties may all
  be undefined. \<open>code\<close> is declared a string and compared with the number 11000, so
  the value of \<open>error.code\<close> is a string or a number here. \<open>error\<close> starts as the
  copy \<open>{ ...err }\<close> and is replaced by a new \<open>HttpError\<close> when \<open>err\<close> is not an
  \<open>HttpError\<close>; four checks on its name and code follow, then the response. The entry
  the handler writes to the logger is not part of the model.
\<close>

datatype code_value = CodeStr string | CodeNum int

record AppError =
  name :: "string option"
  message :: "string option"
  stack :: "string option"
  statusCode :: "int option"
  status :: "string option"
  code :: "code_value option"
  keyPattern :: "string list option"

text \<open>\<open>{ ...err }\<close> copies the own enumerable properties of \<open>err\<close> and nothing else.\<close>

definition spread :: "http_error \<Rightarrow> AppError" where
  "spread h =
     \<lparr>name = None, message = None, stack = None,
      statusCode = Some (http_error.statusCode h), status = Some (http_error.status h),
      code = map_option CodeStr (http_error.code h), keyPattern = None\<rparr>"

text \<open>\<open>error = new HttpError(...)\<close>: the properties of an instance, read through
  \<open>error.x\<close>, the inherited \<open>name\<close> among them.\<close>

definition properties :: "http_error \<Rightarrow> AppError" where
  "properties h =
     \<lparr>name = Some ''Error'', message = Some (http_error.message h),
      stack = Some (http_error.stack h),
      statusCode = Some (http_error.statusCode h), status = Some (http_error.status h),
      code = map_option CodeStr (http_error.code h), keyPattern = None\<rparr>"

text \<open>The JSON body of an error response; a property whose value is undefined is not
  serialised, so \<open>None\<close> is an absent key.\<close>

record error_body =
  success :: bool
  error :: string
  body_code :: "code_value option"
  body_stack :: "string option"

record error_response =
  res_status :: int
  res_json :: error_body

text \<open>Truthiness of the values the handler tests with \<open>||\<close> and \<open>&&\<close>.\<close>

fun truthy_code :: "code_value option \<Rightarrow> bool" where
  "truthy_code None = False"
| "truthy_code (Some (CodeStr s)) = (s \<noteq> [])"
| "truthy_code (Some (CodeNum n)) = (n \<noteq> 0)"

definition errorHandler :: "env \<Rightarrow> thrown \<Rightarrow> error_response" where
  "errorHandler e err =
     (let error0 = (case err of
                      Http h \<Rightarrow> spread h
                    | Other m \<Rightarrow>
                        properties (HttpError e
                          (if NODE_ENV e = Some ''production'' then ''Something went wrong'' else m)
                          (Some 500) (Some ''INTERNAL_SERVER_ERROR'')));
          error1 = (if name error0 = Some ''ValidationError''
                    then error0\<lparr>statusCode := Some 400, code := Some (CodeStr ''VALIDATION_ERROR'')\<rparr>
                    else error0);
          error2 = (if code error1 = Some (CodeNum 11000)
                    then error1\<lparr>statusCode := Some 409, code := Some (CodeStr ''DUPLICATE_KEY''),
                           message := Some ((case keyPattern error1 of
                                               Some (field # _) \<Rightarrow> field
                                             | _ \<Rightarrow> ''undefined'') @ '' already exists'')\<rparr>
                    else error1);
          error3 = (if name error2 = Some ''JsonWebTokenError''
                    then error2\<lparr>statusCode := Some 401, code := Some (CodeStr ''INVALID_TOKEN'')\<rparr>
                    else error2);
          error4 = (if name error3 = Some ''TokenExpiredError''
                    then error3\<lparr>statusCode := Some 401, code := Some (CodeStr ''TOKEN_EXPIRED'')\<rparr>
                    else error3)
      in \<lparr>res_status = (case statusCode error4 of None \<Rightarrow> 500 | Some n \<Rightarrow> if n = 0 then 500 else n),
          res_json =
            \<lparr>success = False,
             error = (case message error4 of None \<Rightarrow> ''Something went wrong''
                      | Some m \<Rightarrow> if m = [] then ''Something went wrong'' else m),
             body_code = (if truthy_code (code error4) then code error4 else None),
             body_stack = (if NODE_ENV e = Some ''development'' then stack error4 else None)\<rparr>\<rparr>)"

subsection \<open>validationMiddleware.ts: the schemas\<close>

text \<open>
  A request property (\<open>req.body\<close>, \<open>req.query\<close>, \<open>req.params\<close>) is an object: its
  keys with their values. A value of the query string or of the path is a string; a
  value of a JSON body is any JSON value. Arrays and objects are never read further.
\<close>

datatype jval = JNull | JBool bool | JNum rat | JStr string | JOther

type_synonym input = "(string \<times> jval) list"

text \<open>The schemas are built from two base types and five rules, with the presence flag,
  the default and the message overrides of each key.\<close>

datatype base_type = StringT | NumberT

datatype rule = Min int | Max int | Email | Uuid | Integer

record field_schema =
  key :: string
  base :: base_type
  rules :: "rule list"
  required :: bool
  default_value :: "jval option"
  messages :: "(string \<times> string) list"

type_synonym object_schema = "field_schema list"

definition createUserSchema :: object_schema where
  "createUserSchema =
     [\<lparr>key = ''name'', base = StringT, rules = [Min 2, Max 100], required = True,
       default_value = None,
       messages = [(''string.empty'', ''Name is required''),
                   (''string.min'', ''Name must be at least 2 characters''),
                   (''string.max'', ''Name must be at most 100 characters'')]\<rparr>,
      \<lparr>key = ''email'', base = StringT, rules = [Email], required = True,
       default_value = None,
       messages = [(''string.empty'', ''Email is required''),
                   (''string.email'', ''Invalid email format'')]\<rparr>,
      \<lparr>key = ''age'', base = NumberT, rules = [Integer, Min 0, Max 150], required = False,
       default_value = None,
       messages = [(''number.base'', ''Age must be a number''),
                   (''number.min'', ''Age must be at least 0''),
                   (''number.max'', ''Age must be at most 150'')]\<rparr>]"

definition updateUserSchema :: object_schema where
  "updateUserSchema =
     [\<lparr>key = ''name'', base = StringT, rules = [Min 2, Max 100], required = False,
       default_value = None,
       messages = [(''string.min'', ''Name must be at least 2 characters''),
                   (''string.max'', ''Name must be at most 100 characters'')]\<rparr>,
      \<lparr>key = ''email'', base = StringT, rules = [Email], required = False,
       default_value = None,
       messages = [(''string.email'', ''Invalid email format'')]\<rparr>,
      \<lparr>key = ''age'', base = NumberT, rules = [Integer, Min 0, Max 150], required = False,
       default_value = None,
       messages = [(''number.base'', ''Age must be a number''),
                   (''number.min'', ''Age must be at least 0''),
                   (''number.max'', ''Age must be at most 150'')]\<rparr>]"

definition idParamsSchema :: object_schema where
  "idParamsSchema =
     [\<lparr>key = ''id'', base = StringT, rules = [Uuid], required = True,
       default_value = None,
       messages = [(''string.uuid'', ''Invalid ID format, must be UUID'')]\<rparr>]"

definition paginationSchema :: object_schema where
  "paginationSchema =
     [\<lparr>key = ''page'', base = NumberT, rules = [Integer, Min 1], required = False,
       default_value = Some (JNum 1), messages = []\<rparr>,
      \<lparr>key = ''limit'', base = NumberT, rules = [Integer, Min 1, Max 100], required = False,
       default_value = Some (JNum 10), messages = []\<rparr>]"

subsection \<open>The validation library: checking an object against a schema\<close>

text \<open>
  Modelled from the spec: the validation library (Joi) is a dependency, not part of the
  sources. What follows is its documented checking of an object schema, for the base
  types and rules above and the three options \<open>validateRequest\<close> passes: a missing
  key fails only when required; a string key accepts a string, fails on the empty
  string before any rule, and then checks its rules; a number key accepts a number, or
  a string the library converts to a number, and then checks its rules; every failure
  is a detail with the path, the failure type and a message (the override of the schema
  for that type, else the library's text). With \<open>abortEarly\<close> the first detail alone
  is reported, without it all of them, in the order of the schema's keys; a key the
  schema does not declare is a failure unless unknown keys are allowed or stripped.
  The grammars and the conversion are the parameters \<open>is_email\<close>, \<open>is_guid\<close> and
  \<open>joi_number\<close>.
\<close>

record detail =
  path :: "string list"
  type :: string
  detail_message :: string

record options =
  abortEarly :: bool
  allowUnknown :: bool
  stripUnknown :: bool

definition fail :: "env \<Rightarrow> field_schema \<Rightarrow> string \<Rightarrow> detail" where
  "fail e f t =
     \<lparr>path = [key f], type = t,
      detail_message = (case map_of (messages f) t of
                          Some m \<Rightarrow> m
                        | None \<Rightarrow> joi_message e t (key f))\<rparr>"

fun string_rule :: "env \<Rightarrow> field_schema \<Rightarrow> string \<Rightarrow> rule \<Rightarrow> detail list" where
  "string_rule e f s (Min n) = (if int (length s) < n then [fail e f ''string.min''] else [])"
| "string_rule e f s (Max n) = (if int (length s) > n then [fail e f ''string.max''] else [])"
| "string_rule e f s Email = (if is_email e s then [] else [fail e f ''string.email''])"
| "string_rule e f s Uuid = (if is_guid e s then [] else [fail e f ''string.guid''])"
| "string_rule e f s Integer = []"

fun number_rule :: "env \<Rightarrow> field_schema \<Rightarrow> rat \<Rightarrow> rule \<Rightarrow> detail list" where
  "number_rule e f q Integer = (if of_int \<lfloor>q\<rfloor> = q then [] else [fail e f ''number.integer''])"
| "number_rule e f q (Min n) = (if q < of_int n then [fail e f ''number.min''] else [])"
| "number_rule e f q (Max n) = (if q > of_int n then [fail e f ''number.max''] else [])"
| "number_rule e f q Email = []"
| "number_rule e f q Uuid = []"

fun check_value :: "env \<Rightarrow> field_schema \<Rightarrow> jval \<Rightarrow> detail list" where
  "check_value e f (JStr s) =
     (case base f of
        StringT \<Rightarrow> (if s = [] then [fail e f ''string.empty'']
                    else concat (map (string_rule e f s) (rules f)))
      | NumberT \<Rightarrow> (case joi_number e s of
                      None \<Rightarrow> [fail e f ''number.base'']
                    | Some q \<Rightarrow> concat (map (number_rule e f q) (rules f))))"
| "check_value e f (JNum q) =
     (case base f of
        StringT \<Rightarrow> [fail e f ''string.base'']
      | NumberT \<Rightarrow> concat (map (number_rule e f q) (rules f)))"
| "check_value e f v =
     (case base f of
        StringT \<Rightarrow> [fail e f ''string.base'']
      | NumberT \<Rightarrow> [fail e f ''number.base''])"

definition check_field :: "env \<Rightarrow> input \<Rightarrow> field_schema \<Rightarrow> detail list" where
  "check_field e inp f =
     (case map_of inp (key f) of
        None \<Rightarrow> (if required f then [fail e f ''any.required''] else [])
      | Some v \<Rightarrow> check_value e f v)"

definition unknown_keys :: "env \<Rightarrow> object_schema \<Rightarrow> input \<Rightarrow> detail list" where
  "unknown_keys e schema inp =
     map (\<lambda>k. \<lparr>path = [k], type = ''object.unknown'',
               detail_message = joi_message e ''object.unknown'' k\<rparr>)
       (filter (\<lambda>k. k \<notin> set (map key schema)) (remdups (map fst inp)))"

definition validate :: "env \<Rightarrow> object_schema \<Rightarrow> options \<Rightarrow> input \<Rightarrow> detail list" where
  "validate e schema opts inp =
     (let details = concat (map (check_field e inp) schema)
                    @ (if allowUnknown opts \<or> stripUnknown opts then []
                       else unknown_keys e schema inp)
      in if abortEarly opts then take 1 details else details)"

subsection \<open>validationMiddleware.ts: validateRequest\<close>

record violation =
  field :: string
  violation_message :: string

fun join :: "string \<Rightarrow> string list \<Rightarrow> string" where
  "join sep [] = []"
| "join sep [x] = x"
| "join sep (x # y # ys) = x @ sep @ join sep (y # ys)"

text \<open>The list \<open>validationErrors\<close> of the middleware: one entry per detail, the path
  joined with dots and the message without its double quotes.\<close>

definition validationErrors :: "env \<Rightarrow> object_schema \<Rightarrow> input \<Rightarrow> violation list" where
  "validationErrors e schema inp =
     map (\<lambda>d. \<lparr>field = join ''.'' (path d),
               violation_message = filter (\<lambda>c. c \<noteq> CHR 0x22) (detail_message d)\<rparr>)
       (validate e schema \<lparr>abortEarly = False, allowUnknown = False, stripUnknown = True\<rparr> inp)"

text \<open>The middleware throws a \<open>ValidationError\<close> when there is a violation and calls
  \<open>next()\<close> otherwise (\<open>Inr ()\<close>). The value the library returns (defaults applied,
  strings converted, unknown keys stripped) is not read: the request keeps what it
  held.\<close>

definition validateRequest :: "env \<Rightarrow> object_schema \<Rightarrow> input \<Rightarrow> thrown + unit" where
  "validateRequest e schema inp =
     (let errs = validationErrors e schema inp
      in if errs \<noteq> []
         then Inl (Http (ValidationError e
                (Some (''Validation failed: '' @ join '', '' (map violation_message errs)))))
         else Inr ())"

subsection \<open>The store: the table users and the statements the routes send\<close>

text \<open>
  The migration creates the table with the columns \<open>id\<close> (the primary key), \<open>name\<close>
  (at most 100 characters), \<open>email\<close> (at most 255 characters, unique), \<open>age\<close> (an
  integer or null) and the two timestamps, whose names it writes in double quotes:
  \<open>"createdAt"\<close> and \<open>"updatedAt"\<close>. A row of the table is a \<open>User\<close>, held as the
  driver returns it to the service. The timestamp columns have the type
  \<open>TIMESTAMP\<close>: of the text \<open>t\<close> bound to one, the store keeps the date and time
  and the driver reads them back in the time zone of the process, so that the service
  gets \<open>pg_timestamp t\<close>, which is \<open>t\<close> itself only for a process in UTC. An id is
  compared with the ids of the rows as a text: the model takes the id of a request in
  the spelling the store returns (lower case, with hyphens), which is the spelling
  \<open>uuidv4\<close> writes.
\<close>

record User =
  id' :: string
  name :: string
  email :: string
  age :: "int option"
  createdAt :: string
  updatedAt :: string

text \<open>
  PostgreSQL reads an identifier in double quotes as it is written and folds any other
  identifier to lower case. A statement below carries the identifiers of the two
  mixed-case columns as its source text writes them; it fails unless they name the
  column meant. The identifiers \<open>id\<close>, \<open>name\<close>, \<open>email\<close> and \<open>age\<close> are written
  in lower case everywhere and name their columns.
\<close>

datatype ident = Quoted string | Unquoted string

definition to_lower :: "char \<Rightarrow> char" where
  "to_lower c =
     (let n = (of_char c :: nat) in if 65 \<le> n \<and> n \<le> 90 then char_of (n + 32) else c)"

fun resolve :: "ident \<Rightarrow> string" where
  "resolve (Quoted s) = s"
| "resolve (Unquoted s) = map to_lower s"

definition undefined_column :: "ident \<Rightarrow> string" where
  "undefined_column c = ''column '' @ resolve c @ '' does not exist''"

text \<open>An assignment of the \<open>SET\<close> list of an update, with the value bound to it.\<close>

datatype assignment =
  SetName string | SetEmail string | SetAge jval | SetUpdatedAt ident string

text \<open>
  The statements, each with the values bound to its parameters:
  \<^item> \<open>SelectCount\<close>: \<open>SELECT COUNT(*) FROM users\<close>;
  \<^item> \<open>SelectPage c l o\<close>: \<open>SELECT * FROM users ORDER BY c DESC LIMIT l OFFSET o\<close>;
  \<^item> \<open>SelectById i\<close>: \<open>SELECT * FROM users WHERE id = i\<close>;
  \<^item> \<open>SelectIdById i\<close>: \<open>SELECT id FROM users WHERE id = i\<close>;
  \<^item> \<open>SelectIdByEmail m\<close>: \<open>SELECT id FROM users WHERE email = m\<close>;
  \<^item> \<open>SelectIdByEmailNotId m i\<close>: \<open>SELECT id FROM users WHERE email = m AND id != i\<close>;
  \<^item> \<open>InsertUser c u i n m a t t'\<close>:
    \<open>INSERT INTO users (id, name, email, age, c, u) VALUES (i, n, m, a, t, t') RETURNING *\<close>;
  \<^item> \<open>UpdateUser sets i\<close>: \<open>UPDATE users SET sets WHERE id = i RETURNING *\<close>;
  \<^item> \<open>DeleteUser i\<close>: \<open>DELETE FROM users WHERE id = i RETURNING id\<close>.
\<close>

datatype statement =
  SelectCount
  | SelectPage ident int int
  | SelectById string
  | SelectIdById string
  | SelectIdByEmail string
  | SelectIdByEmailNotId string string
  | InsertUser ident ident string string string jval string string
  | UpdateUser "assignment list" string
  | DeleteUser string

datatype result = Count nat | Rows "User list" | IdRows "string list"

fun row_count :: "result \<Rightarrow> nat" where
  "row_count (Count n) = 1"
| "row_count (Rows us) = length us"
| "row_count (IdRows is) = length is"

text \<open>The value bound to the integer column \<open>age\<close>: null, an integral number, or a
  text the store reads as an integer (the parameter \<open>pg_int\<close>); anything else is an
  error of the statement (\<open>None\<close>).\<close>

fun age_column :: "env \<Rightarrow> jval \<Rightarrow> int option option" where
  "age_column e JNull = Some None"
| "age_column e (JNum q) = (if of_int \<lfloor>q\<rfloor> = q then Some (Some \<lfloor>q\<rfloor>) else None)"
| "age_column e (JStr s) = map_option Some (pg_int e s)"
| "age_column e (JBool b) = None"
| "age_column e JOther = None"

fun assign :: "env \<Rightarrow> User list \<Rightarrow> User \<Rightarrow> assignment \<Rightarrow> string + User" where
  "assign e others u (SetName n) =
     (if length n > 100 then Inl ''value too long for type character varying(100)''
      else Inr (u\<lparr>name := n\<rparr>))"
| "assign e others u (SetEmail m) =
     (if length m > 255 then Inl ''value too long for type character varying(255)''
      else if m \<in> set (map email others)
      then Inl ''duplicate key value violates unique constraint users_email_key''
      else Inr (u\<lparr>email := m\<rparr>))"
| "assign e others u (SetAge v) =
     (case age_column e v of
        None \<Rightarrow> Inl ''invalid input syntax for type integer''
      | Some a \<Rightarrow> Inr (u\<lparr>age := a\<rparr>))"
| "assign e others u (SetUpdatedAt c t) =
     (if resolve c = ''updatedAt'' then Inr (u\<lparr>updatedAt := pg_timestamp e t\<rparr>)
      else Inl (undefined_column c))"

fun assign_all :: "env \<Rightarrow> User list \<Rightarrow> User \<Rightarrow> assignment list \<Rightarrow> string + User" where
  "assign_all e others u [] = Inr u"
| "assign_all e others u (a # rest) =
     (case assign e others u a of Inl m \<Rightarrow> Inl m | Inr u' \<Rightarrow> assign_all e others u' rest)"

text \<open>The update of the rows with a given id (at most one, the id being the key).\<close>

fun update_rows :: "env \<Rightarrow> User list \<Rightarrow> assignment list \<Rightarrow> string \<Rightarrow> User list
    \<Rightarrow> string + (User list \<times> User list)" where
  "update_rows e all sets i [] = Inr ([], [])"
| "update_rows e all sets i (u # us) =
     (case update_rows e all sets i us of
        Inl m \<Rightarrow> Inl m
      | Inr (changed, us') \<Rightarrow>
          if id' u = i
          then (case assign_all e (filter (\<lambda>w. id' w \<noteq> i) all) u sets of
                  Inl m \<Rightarrow> Inl m
                | Inr u' \<Rightarrow> Inr (u' # changed, u' # us'))
          else Inr (changed, u # us'))"

text \<open>\<open>exec\<close> runs a statement on the rows of the table: an error message, or the
  result with the rows afterwards.\<close>

fun exec :: "env \<Rightarrow> statement \<Rightarrow> User list \<Rightarrow> string + (result \<times> User list)" where
  "exec e SelectCount us = Inr (Count (length us), us)"
| "exec e (SelectPage c l off) us =
     (if resolve c \<noteq> ''createdAt'' then Inl (undefined_column c)
      else if l < 0 then Inl ''LIMIT must not be negative''
      else if off < 0 then Inl ''OFFSET must not be negative''
      else Inr (Rows (take (nat l) (drop (nat off) (rev (sort_key createdAt us)))), us))"
| "exec e (SelectById i) us = Inr (Rows (filter (\<lambda>u. id' u = i) us), us)"
| "exec e (SelectIdById i) us = Inr (IdRows (map id' (filter (\<lambda>u. id' u = i) us)), us)"
| "exec e (SelectIdByEmail m) us = Inr (IdRows (map id' (filter (\<lambda>u. email u = m) us)), us)"
| "exec e (SelectIdByEmailNotId m i) us =
     Inr (IdRows (map id' (filter (\<lambda>u. email u = m \<and> id' u \<noteq> i) us)), us)"
| "exec e (InsertUser c u i n m a t t') us =
     (if resolve c \<noteq> ''createdAt'' then Inl (undefined_column c)
      else if resolve u \<noteq> ''updatedAt'' then Inl (undefined_column u)
      else (case age_column e a of
              None \<Rightarrow> Inl ''invalid input syntax for type integer''
            | Some a' \<Rightarrow>
                if length n > 100 then Inl ''value too long for type character varying(100)''
                else if length m > 255 then Inl ''value too long for type character varying(255)''
                else if i \<in> set (map id' us)
                then Inl ''duplicate key value violates unique constraint users_pkey''
                else if m \<in> set (map email us)
                then Inl ''duplicate key value violates unique constraint users_email_key''
                else (let row = \<lparr>id' = i, name = n, email = m, age = a',
                                  createdAt = pg_timestamp e t,
                                  updatedAt = pg_timestamp e t'\<rparr>
                      in Inr (Rows [row], us @ [row]))))"
| "exec e (UpdateUser sets i) us =
     (case update_rows e us sets i us of
        Inl m \<Rightarrow> Inl m
      | Inr (changed, us') \<Rightarrow> Inr (Rows changed, us'))"
| "exec e (DeleteUser i) us =
     Inr (IdRows (map id' (filter (\<lambda>u. id' u = i) us)), filter (\<lambda>u. id' u \<noteq> i) us)"

text \<open>
  The state of the service: the rows of the table, the statements sent so far, each
  with whether it succeeded, and the number of identifiers \<open>uuidv4\<close> has issued.
  \<open>down\<close> is the availability of the store: the statement sent as the \<open>n\<close>-th fails
  (connection refused, timeout) when \<open>down n\<close> holds.
\<close>

record state =
  users :: "User list"
  log :: "(statement \<times> bool) list"
  issued :: nat
  down :: "nat \<Rightarrow> bool"

text \<open>\<open>db.query(text, params)\<close>: the result, or the error the pool throws.\<close>

definition query :: "env \<Rightarrow> statement \<Rightarrow> state \<Rightarrow> (string + result) \<times> state" where
  "query e stmt st =
     (if down st (length (log st))
      then (Inl ''connection failure'', st\<lparr>log := log st @ [(stmt, False)]\<rparr>)
      else (case exec e stmt (users st) of
              Inl m \<Rightarrow> (Inl m, st\<lparr>log := log st @ [(stmt, False)]\<rparr>)
            | Inr (r, us) \<Rightarrow> (Inr r, st\<lparr>users := us, log := log st @ [(stmt, True)]\<rparr>)))"

subsection \<open>userRoutes.ts: requests and responses\<close>

text \<open>
  The handlers read the request through the declared interfaces. \<open>name\<close> and
  \<open>email\<close> are strings; \<open>age\<close> is declared a number, and is at run time whatever
  value passed the validation (a number, or a string the library converts), so it is
  kept as the value it is. The values of the query string are strings.
\<close>

record CreateUserRequest =
  name :: string
  email :: string
  age :: "jval option"

record UpdateUserRequest =
  name :: "string option"
  email :: "string option"
  age :: "jval option"

record PaginationQuery =
  page :: "string option"
  limit :: "string option"

text \<open>Reading a request property through its interface: \<open>None\<close> when a value is not
  of the declared type, which the validation in front of the handler excludes.\<close>

definition CreateUserRequest_of :: "input \<Rightarrow> CreateUserRequest option" where
  "CreateUserRequest_of body =
     (case (map_of body ''name'', map_of body ''email'') of
        (Some (JStr n), Some (JStr m)) \<Rightarrow>
          Some \<lparr>CreateUserRequest.name = n, email = m, age = map_of body ''age''\<rparr>
      | _ \<Rightarrow> None)"

fun optional_string :: "jval option \<Rightarrow> string option option" where
  "optional_string None = Some None"
| "optional_string (Some (JStr s)) = Some (Some s)"
| "optional_string (Some v) = None"

definition UpdateUserRequest_of :: "input \<Rightarrow> UpdateUserRequest option" where
  "UpdateUserRequest_of body =
     (case (optional_string (map_of body ''name''), optional_string (map_of body ''email'')) of
        (Some n, Some m) \<Rightarrow> Some \<lparr>name = n, email = m, age = map_of body ''age''\<rparr>
      | _ \<Rightarrow> None)"

definition PaginationQuery_of :: "input \<Rightarrow> PaginationQuery option" where
  "PaginationQuery_of q =
     (case (optional_string (map_of q ''page''), optional_string (map_of q ''limit'')) of
        (Some p, Some l) \<Rightarrow> Some \<lparr>page = p, limit = l\<rparr>
      | _ \<Rightarrow> None)"

definition id_of :: "input \<Rightarrow> string option" where
  "id_of params = (case map_of params ''id'' of Some (JStr s) \<Rightarrow> Some s | _ \<Rightarrow> None)"

datatype success_body =
  UserJson "User option"
  | PageJson "User list" int int int int
  | DeletedJson string string

record success =
  ok_status :: int
  ok_json :: success_body

datatype response = Success success | Failure error_response

subsection \<open>The built-in parseInt\<close>

text \<open>
  \<open>parseInt(string)\<close> without a radix: leading white space is skipped, a sign is read,
  the prefix \<open>0x\<close> selects radix 16, and the longest run of digits of the radix is
  the value; with no digit the result is \<open>NaN\<close> (\<open>None\<close>). \<open>parseInt(undefined)\<close> is
  \<open>NaN\<close>. The white space is the ASCII white space.
\<close>

definition is_space :: "char \<Rightarrow> bool" where
  "is_space c = (c \<in> set [CHR 0x20, CHR 0x09, CHR 0x0A, CHR 0x0B, CHR 0x0C, CHR 0x0D])"

definition digit_of :: "char \<Rightarrow> nat option" where
  "digit_of c =
     (let n = (of_char c :: nat)
      in if 48 \<le> n \<and> n \<le> 57 then Some (n - 48)
         else if 97 \<le> n \<and> n \<le> 122 then Some (n - 87)
         else if 65 \<le> n \<and> n \<le> 90 then Some (n - 55)
         else None)"

definition is_digit :: "nat \<Rightarrow> char \<Rightarrow> bool" where
  "is_digit radix c = (case digit_of c of None \<Rightarrow> False | Some d \<Rightarrow> d < radix)"

definition digits_value :: "nat \<Rightarrow> string \<Rightarrow> nat" where
  "digits_value radix ds = foldl (\<lambda>acc c. acc * radix + (case digit_of c of None \<Rightarrow> 0 | Some d \<Rightarrow> d)) 0 ds"

definition parseInt :: "string option \<Rightarrow> int option" where
  "parseInt x =
     (case x of
        None \<Rightarrow> None
      | Some s \<Rightarrow>
          (let s1 = dropWhile is_space s;
               negative = (take 1 s1 = ''-'');
               s2 = (if take 1 s1 = ''-'' \<or> take 1 s1 = ''+'' then drop 1 s1 else s1);
               hex = (take 2 s2 = ''0x'' \<or> take 2 s2 = ''0X'');
               radix = (if hex then 16 else 10);
               s3 = (if hex then drop 2 s2 else s2);
               ds = takeWhile (is_digit radix) s3
           in if ds = [] then None
              else Some ((if negative then - 1 else 1) * int (digits_value radix ds))))"

text \<open>\<open>parseInt(x) || d\<close>: \<open>NaN\<close> and 0 are falsy.\<close>

definition parseInt_or :: "string option \<Rightarrow> int \<Rightarrow> int" where
  "parseInt_or x d = (case parseInt x of None \<Rightarrow> d | Some n \<Rightarrow> if n = 0 then d else n)"

text \<open>\<open>Math.ceil(total / limit)\<close> for a limit that is not 0.\<close>

definition ceil_div :: "int \<Rightarrow> int \<Rightarrow> int" where
  "ceil_div n d = - ((- n) div d)"

subsection \<open>userRoutes.ts: the handlers\<close>

text \<open>
  A handler is a \<open>try\<close> block and a \<open>catch\<close> block. The \<open>try\<close> block returns the
  success response or the value it throws, with the state of the service afterwards;
  an error of \<open>db.query\<close> is thrown as it is (it is not an \<open>HttpError\<close>). The
  \<open>catch\<close> block throws again what is an instance of one of the classes it names, and
  replaces anything else by an \<open>HttpError\<close> with status 500 and code
  \<open>DATABASE_ERROR\<close>.
\<close>

definition catch :: "env \<Rightarrow> error_class list \<Rightarrow> string \<Rightarrow> (thrown + 'a) \<times> state
    \<Rightarrow> (thrown + 'a) \<times> state" where
  "catch e rethrown msg r =
     (case r of
        (Inl err, st) \<Rightarrow>
          (Inl (if list_ex (instanceof err) rethrown then err
                else Http (HttpError e msg (Some 500) (Some ''DATABASE_ERROR''))), st)
      | (Inr ok, st) \<Rightarrow> (Inr ok, st))"

fun first_row :: "result \<Rightarrow> User option" where
  "first_row (Rows (u # us)) = Some u"
| "first_row r = None"

text \<open>\<open>GET /\<close>: the page of the listing.\<close>

definition get_users_try :: "env \<Rightarrow> PaginationQuery \<Rightarrow> state \<Rightarrow> (thrown + success) \<times> state" where
  "get_users_try e q st =
     (let page = parseInt_or (page q) 1;
          limit = parseInt_or (limit q) 10;
          offset = (page - 1) * limit
      in case query e SelectCount st of
           (Inl m, st1) \<Rightarrow> (Inl (Other m), st1)
         | (Inr countResult, st1) \<Rightarrow>
             (let total_count = (case countResult of Count n \<Rightarrow> int n | _ \<Rightarrow> 0)
              in case query e (SelectPage (Unquoted ''createdAt'') limit offset) st1 of
                   (Inl m, st2) \<Rightarrow> (Inl (Other m), st2)
                 | (Inr result, st2) \<Rightarrow>
                     (let totalPages = ceil_div total_count limit
                      in (Inr \<lparr>ok_status = 200,
                               ok_json = PageJson (case result of Rows us \<Rightarrow> us | _ \<Rightarrow> [])
                                           page limit total_count totalPages\<rparr>, st2))))"

definition get_users :: "env \<Rightarrow> PaginationQuery \<Rightarrow> state \<Rightarrow> (thrown + success) \<times> state" where
  "get_users e q st = catch e [] ''Failed to fetch users'' (get_users_try e q st)"

text \<open>\<open>GET /:id\<close>.\<close>

definition get_user_try :: "env \<Rightarrow> string \<Rightarrow> state \<Rightarrow> (thrown + success) \<times> state" where
  "get_user_try e i st =
     (case query e (SelectById i) st of
        (Inl m, st1) \<Rightarrow> (Inl (Other m), st1)
      | (Inr result, st1) \<Rightarrow>
          if row_count result = 0
          then (Inl (Http (NotFoundError e (Some ''User not found''))), st1)
          else (Inr \<lparr>ok_status = 200, ok_json = UserJson (first_row result)\<rparr>, st1))"

definition get_user :: "env \<Rightarrow> string \<Rightarrow> state \<Rightarrow> (thrown + success) \<times> state" where
  "get_user e i st = catch e [NotFoundErrorC] ''Failed to fetch user'' (get_user_try e i st)"

text \<open>\<open>POST /\<close>. The identifier and the time are taken first; \<open>age || null\<close> binds
  null for every falsy value of \<open>age\<close>.\<close>

fun or_null :: "jval option \<Rightarrow> jval" where
  "or_null None = JNull"
| "or_null (Some JNull) = JNull"
| "or_null (Some (JBool b)) = (if b then JBool b else JNull)"
| "or_null (Some (JNum q)) = (if q = 0 then JNull else JNum q)"
| "or_null (Some (JStr s)) = (if s = [] then JNull else JStr s)"
| "or_null (Some JOther) = JOther"

definition post_user_try :: "env \<Rightarrow> CreateUserRequest \<Rightarrow> string \<Rightarrow> state
    \<Rightarrow> (thrown + success) \<times> state" where
  "post_user_try e r now st0 =
     (let i = uuidv4 e (issued st0);
          st = st0\<lparr>issued := Suc (issued st0)\<rparr>
      in case query e (SelectIdByEmail (CreateUserRequest.email r)) st of
           (Inl m, st1) \<Rightarrow> (Inl (Other m), st1)
         | (Inr existingUser, st1) \<Rightarrow>
             if row_count existingUser > 0
             then (Inl (Http (ConflictError e (Some ''Email already exists''))), st1)
             else (case query e (InsertUser (Quoted ''createdAt'') (Quoted ''updatedAt'') i
                                   (CreateUserRequest.name r) (CreateUserRequest.email r)
                                   (or_null (CreateUserRequest.age r)) now now) st1 of
                     (Inl m, st2) \<Rightarrow> (Inl (Other m), st2)
                   | (Inr result, st2) \<Rightarrow>
                       (Inr \<lparr>ok_status = 201, ok_json = UserJson (first_row result)\<rparr>, st2)))"

definition post_user :: "env \<Rightarrow> CreateUserRequest \<Rightarrow> string \<Rightarrow> state
    \<Rightarrow> (thrown + success) \<times> state" where
  "post_user e r now st =
     catch e [ConflictErrorC] ''Failed to create user'' (post_user_try e r now st)"

text \<open>\<open>PUT /:id\<close>: the existence check, the email check when an email is given, the
  dynamic \<open>SET\<close> list, and the update.\<close>

definition email_check :: "env \<Rightarrow> string \<Rightarrow> UpdateUserRequest \<Rightarrow> state \<Rightarrow> (thrown + unit) \<times> state" where
  "email_check e i r st =
     (case UpdateUserRequest.email r of
        None \<Rightarrow> (Inr (), st)
      | Some m \<Rightarrow>
          if m = [] then (Inr (), st)
          else (case query e (SelectIdByEmailNotId m i) st of
                  (Inl msg, st1) \<Rightarrow> (Inl (Other msg), st1)
                | (Inr emailCheck, st1) \<Rightarrow>
                    if row_count emailCheck > 0
                    then (Inl (Http (ConflictError e (Some ''Email already exists''))), st1)
                    else (Inr (), st1)))"

definition updates_of :: "UpdateUserRequest \<Rightarrow> assignment list" where
  "updates_of r =
     (case UpdateUserRequest.name r of None \<Rightarrow> [] | Some n \<Rightarrow> [SetName n])
     @ (case UpdateUserRequest.email r of None \<Rightarrow> [] | Some m \<Rightarrow> [SetEmail m])
     @ (case UpdateUserRequest.age r of None \<Rightarrow> [] | Some a \<Rightarrow> [SetAge a])"

definition put_user_try :: "env \<Rightarrow> string \<Rightarrow> UpdateUserRequest \<Rightarrow> string \<Rightarrow> state
    \<Rightarrow> (thrown + success) \<times> state" where
  "put_user_try e i r now st =
     (case query e (SelectIdById i) st of
        (Inl m, st1) \<Rightarrow> (Inl (Other m), st1)
      | (Inr existingUser, st1) \<Rightarrow>
          if row_count existingUser = 0
          then (Inl (Http (NotFoundError e (Some ''User not found''))), st1)
          else (case email_check e i r st1 of
                  (Inl err, st2) \<Rightarrow> (Inl err, st2)
                | (Inr _, st2) \<Rightarrow>
                    (let updates = updates_of r
                     in if length updates = 0
                        then (Inl (Http (HttpError e ''No fields to update'' (Some 400)
                                           (Some ''NO_UPDATES''))), st2)
                        else (case query e (UpdateUser
                                              (updates @ [SetUpdatedAt (Quoted ''updatedAt'') now])
                                              i) st2 of
                                (Inl m, st3) \<Rightarrow> (Inl (Other m), st3)
                              | (Inr result, st3) \<Rightarrow>
                                  if row_count result = 0
                                  then (Inl (Http (NotFoundError e (Some ''User not found''))), st3)
                                  else (Inr \<lparr>ok_status = 200,
                                            ok_json = UserJson (first_row result)\<rparr>, st3)))))"

definition put_user :: "env \<Rightarrow> string \<Rightarrow> UpdateUserRequest \<Rightarrow> string \<Rightarrow> state
    \<Rightarrow> (thrown + success) \<times> state" where
  "put_user e i r now st =
     catch e [NotFoundErrorC, ConflictErrorC, HttpErrorC] ''Failed to update user''
       (put_user_try e i r now st)"

text \<open>\<open>DELETE /:id\<close>.\<close>

definition delete_user_try :: "env \<Rightarrow> string \<Rightarrow> state \<Rightarrow> (thrown + success) \<times> state" where
  "delete_user_try e i st =
     (case query e (DeleteUser i) st of
        (Inl m, st1) \<Rightarrow> (Inl (Other m), st1)
      | (Inr result, st1) \<Rightarrow>
          if row_count result = 0
          then (Inl (Http (NotFoundError e (Some ''User not found''))), st1)
          else (Inr \<lparr>ok_status = 200,
                    ok_json = DeletedJson ''User deleted successfully'' i\<rparr>, st1))"

definition delete_user :: "env \<Rightarrow> string \<Rightarrow> state \<Rightarrow> (thrown + success) \<times> state" where
  "delete_user e i st = catch e [NotFoundErrorC] ''Failed to delete user'' (delete_user_try e i st)"

subsection \<open>app.ts: the routes\<close>

text \<open>
  A route runs its validation middlewares in order, then its handler. What a middleware
  or the handler throws reaches \<open>errorHandler\<close>, which writes the response; a handler
  that returns has written its own. A request whose property is not of the type the
  handler declares cannot pass the validation; the model answers it like any error
  that is not an \<open>HttpError\<close>.
\<close>

definition respond :: "env \<Rightarrow> (thrown + success) \<times> state \<Rightarrow> response \<times> state" where
  "respond e r =
     (case r of
        (Inl err, st) \<Rightarrow> (Failure (errorHandler e err), st)
      | (Inr ok, st) \<Rightarrow> (Success ok, st))"

definition ill_typed :: thrown where
  "ill_typed = Other ''request property is not of the declared type''"

definition GET_users :: "env \<Rightarrow> input \<Rightarrow> state \<Rightarrow> response \<times> state" where
  "GET_users e q st =
     (case validateRequest e paginationSchema q of
        Inl err \<Rightarrow> respond e (Inl err, st)
      | Inr _ \<Rightarrow>
          (case PaginationQuery_of q of
             None \<Rightarrow> respond e (Inl ill_typed, st)
           | Some pq \<Rightarrow> respond e (get_users e pq st)))"

definition GET_user :: "env \<Rightarrow> input \<Rightarrow> state \<Rightarrow> response \<times> state" where
  "GET_user e params st =
     (case validateRequest e idParamsSchema params of
        Inl err \<Rightarrow> respond e (Inl err, st)
      | Inr _ \<Rightarrow>
          (case id_of params of
             None \<Rightarrow> respond e (Inl ill_typed, st)
           | Some i \<Rightarrow> respond e (get_user e i st)))"

definition POST_users :: "env \<Rightarrow> input \<Rightarrow> string \<Rightarrow> state \<Rightarrow> response \<times> state" where
  "POST_users e body now st =
     (case validateRequest e createUserSchema body of
        Inl err \<Rightarrow> respond e (Inl err, st)
      | Inr _ \<Rightarrow>
          (case CreateUserRequest_of body of
             None \<Rightarrow> respond e (Inl ill_typed, st)
           | Some r \<Rightarrow> respond e (post_user e r now st)))"

definition PUT_user :: "env \<Rightarrow> input \<Rightarrow> input \<Rightarrow> string \<Rightarrow> state \<Rightarrow> response \<times> state" where
  "PUT_user e params body now st =
     (case validateRequest e idParamsSchema params of
        Inl err \<Rightarrow> respond e (Inl err, st)
      | Inr _ \<Rightarrow>
          (case validateRequest e updateUserSchema body of
             Inl err \<Rightarrow> respond e (Inl err, st)
           | Inr _ \<Rightarrow>
               (case (id_of params, UpdateUserRequest_of body) of
                  (Some i, Some r) \<Rightarrow> respond e (put_user e i r now st)
                | _ \<Rightarrow> respond e (Inl ill_typed, st))))"

definition DELETE_user :: "env \<Rightarrow> input \<Rightarrow> state \<Rightarrow> response \<times> state" where
  "DELETE_user e params st =
     (case validateRequest e idParamsSchema params of
        Inl err \<Rightarrow> respond e (Inl err, st)
      | Inr _ \<Rightarrow>
          (case id_of params of
             None \<Rightarrow> respond e (Inl ill_typed, st)
           | Some i \<Rightarrow> respond e (delete_user e i st)))"

subsection \<open>What a request shows\<close>

text \<open>\<open>fails_with r sc c\<close>: the response \<open>r\<close> is an error response with status \<open>sc\<close>
  and code \<open>c\<close>.\<close>

definition fails_with :: "response \<Rightarrow> int \<Rightarrow> string \<Rightarrow> bool" where
  "fails_with r sc c =
     (case r of
        Failure f \<Rightarrow> res_status f = sc \<and> body_code (res_json f) = Some (CodeStr c)
      | Success ok \<Rightarrow> False)"

text \<open>\<open>store_failed st st'\<close>: a statement sent between the states \<open>st\<close> and \<open>st'\<close>
  failed.\<close>

definition store_failed :: "state \<Rightarrow> state \<Rightarrow> bool" where
  "store_failed st st' = list_ex (\<lambda>entry. \<not> snd entry) (drop (length (log st)) (log st'))"




subsection \<open>Concrete values\<close>

text \<open>
  An environment, rows and states on which the definitions are evaluated. The grammars
  of \<open>example_env\<close> are simple stand-ins (an email contains \<open>@\<close>, a GUID has 36
  characters), its process runs in UTC, and its generator of identifiers alternates
  between two version-4 UUIDs. The generator of \<open>repeating_env\<close> returns one value
  every time.
\<close>

definition example_env :: "string option \<Rightarrow> env" where
  "example_env mode =
     \<lparr>NODE_ENV = mode,
      is_email = (\<lambda>s. CHR ''@'' \<in> set s),
      is_guid = (\<lambda>s. length s = 36),
      joi_number = (\<lambda>s. map_option of_int (parseInt (Some s))),
      joi_message = (\<lambda>t k. k @ '' is not valid: '' @ t),
      pg_int = (\<lambda>s. parseInt (Some s)),
      pg_timestamp = (\<lambda>t. t),
      uuidv4 = (\<lambda>n. if even n then ''7f9c24e8-3b12-4fef-91e0-5d2a6b0c1d3e''
                     else ''0b6f1a52-9c3d-4e7a-8f21-6a5b4c3d2e1f''),
      stack_trace = ''Error at errorHandler''\<rparr>"



definition example_user :: "string \<Rightarrow> User" where
  "example_user d =
     \<lparr>id' = ''123e4567-e89b-12d3-a456-42661417400'' @ d,
      name = ''User '' @ d,
      email = ''user'' @ d @ ''@example.com'',
      age = Some 21,
      createdAt = ''2024-01-01T00:00:0'' @ d @ ''.000Z'',
      updatedAt = ''2024-01-01T00:00:0'' @ d @ ''.000Z''\<rparr>"

definition example_state :: "User list \<Rightarrow> (nat \<Rightarrow> bool) \<Rightarrow> state" where
  "example_state us d = \<lparr>users = us, log = [], issued = 0, down = d\<rparr>"

definition id1 :: string where
  "id1 = ''123e4567-e89b-12d3-a456-426614174001''"



definition five_users :: "User list" where
  "five_users = map example_user [''1'', ''2'', ''3'', ''4'', ''5'']"

section \<open>Properties\<close>

subsection \<open>The error handler\<close>

lemma errorHandler_Http:
  "errorHandler e (Http h) =
     \<lparr>res_status = (if http_error.statusCode h = 0 then 500 else http_error.statusCode h),
      res_json = \<lparr>success = False, error = ''Something went wrong'',
                  body_code = (case http_error.code h of
                                 None \<Rightarrow> None
                               | Some c \<Rightarrow> if c = [] then None else Some (CodeStr c)),
                  body_stack = None\<rparr>\<rparr>"
  by (cases "http_error.code h") (simp_all add: errorHandler_def spread_def Let_def)

lemma errorHandler_Other:
  "errorHandler e (Other m) =
     \<lparr>res_status = 500,
      res_json = \<lparr>success = False,
                  error = (if NODE_ENV e = Some ''production'' \<or> m = []
                           then ''Something went wrong'' else m),
                  body_code = Some (CodeStr ''INTERNAL_SERVER_ERROR''),
                  body_stack = (if NODE_ENV e = Some ''development''
                                then Some (stack_trace e) else None)\<rparr>\<rparr>"
  by (simp add: errorHandler_def properties_def HttpError_def HttpError_as_def Let_def)

text \<open>
  Claim C1, as amended. For an error that is an \<open>HttpError\<close> or an instance of a
  subclass, the response carries the status code of the error (500 when that is 0) and
  its code (no code when it is undefined or empty), \<open>success\<close> is false and there is
  no stack. Any other error is answered with status 500 and the code
  \<open>INTERNAL_SERVER_ERROR\<close>; the text is \<open>Something went wrong\<close> in production
  and when the original message is empty, and the original message otherwise; the body
  also holds the stack when \<open>NODE_ENV\<close> is \<open>development\<close>. The text of the
  response to an \<open>HttpError\<close> is left out of the statement.
\<close>

theorem errorHandler_response:
  "res_status (errorHandler e (Http h))
     = (if http_error.statusCode h = 0 then 500 else http_error.statusCode h)
   \<and> body_code (res_json (errorHandler e (Http h)))
     = (case http_error.code h of
          None \<Rightarrow> None
        | Some c \<Rightarrow> if c = [] then None else Some (CodeStr c))
   \<and> success (res_json (errorHandler e (Http h))) = False
   \<and> body_stack (res_json (errorHandler e (Http h))) = None
   \<and> errorHandler e (Other m) =
       \<lparr>res_status = 500,
        res_json = \<lparr>success = False,
                    error = (if NODE_ENV e = Some ''production'' \<or> m = []
                             then ''Something went wrong'' else m),
                    body_code = Some (CodeStr ''INTERNAL_SERVER_ERROR''),
                    body_stack = (if NODE_ENV e = Some ''development''
                                  then Some (stack_trace e) else None)\<rparr>\<rparr>"
  by (simp add: errorHandler_Http errorHandler_Other)

text \<open>
  Claim C1 as stated fails. In development the body of the response to an error that is
  not an \<open>HttpError\<close> has a fourth key, the stack; and the response to a
  \<open>NotFoundError\<close> with the message \<open>User not found\<close> does not carry that message
  (the copy \<open>{ ...err }\<close> has no \<open>message\<close>), where the integration test of the
  duplicate email expects the message of the error in the body.
\<close>

theorem errorHandler_envelope_counterexample:
  "res_json (errorHandler (example_env (Some ''development'')) (Other ''boom''))
     = \<lparr>success = False, error = ''boom'',
        body_code = Some (CodeStr ''INTERNAL_SERVER_ERROR''),
        body_stack = Some ''Error at errorHandler''\<rparr>
   \<and> error (res_json (errorHandler (example_env (Some ''production''))
        (Http (NotFoundError (example_env (Some ''production'')) (Some ''User not found'')))))
     = ''Something went wrong''"
  by (simp add: errorHandler_def properties_def spread_def HttpError_def HttpError_as_def
      NotFoundError_def example_env_def Let_def)

lemma fails_with_Http:
  "fails_with (Failure (errorHandler e (Http h))) sc c \<longleftrightarrow>
     (if http_error.statusCode h = 0 then 500 else http_error.statusCode h) = sc
     \<and> http_error.code h = Some c \<and> c \<noteq> []"
  by (cases "http_error.code h")
     (auto simp: fails_with_def errorHandler_def spread_def Let_def)

lemma fails_with_classes:
  "fails_with (Failure (errorHandler e (Http (ValidationError e' m)))) 400 ''VALIDATION_ERROR''"
  "fails_with (Failure (errorHandler e (Http (NotFoundError e' m)))) 404 ''NOT_FOUND''"
  "fails_with (Failure (errorHandler e (Http (ConflictError e' m)))) 409 ''CONFLICT''"
  "fails_with (Failure (errorHandler e (Http (HttpError e' msg (Some 500) (Some ''DATABASE_ERROR'')))))
     500 ''DATABASE_ERROR''"
  "fails_with (Failure (errorHandler e (Http (HttpError e' msg (Some 400) (Some ''NO_UPDATES'')))))
     400 ''NO_UPDATES''"
  by (simp_all add: fails_with_Http ValidationError_def NotFoundError_def ConflictError_def
      HttpError_def HttpError_as_def)

subsection \<open>The store and the validation\<close>

lemma query_up:
  "\<not> down st (length (log st)) \<Longrightarrow>
   query e s st =
     (case exec e s (users st) of
        Inl m \<Rightarrow> (Inl m, st\<lparr>log := log st @ [(s, False)]\<rparr>)
      | Inr (r, us) \<Rightarrow> (Inr r, st\<lparr>users := us, log := log st @ [(s, True)]\<rparr>))"
  by (simp add: query_def)

lemma validateRequest_ok:
  "validateRequest e schema inp = Inr () \<longleftrightarrow> (\<forall>f \<in> set schema. check_field e inp f = [])"
  by (auto simp: validateRequest_def validationErrors_def validate_def Let_def)

lemma validateRequest_cases:
  "validateRequest e schema inp = Inr () \<or>
   (\<exists>m. validateRequest e schema inp = Inl (Http (ValidationError e (Some m))))"
  by (auto simp: validateRequest_def Let_def)

lemma check_string_ok:
  assumes "check_field e inp f = []" "base f = StringT"
  shows "(map_of inp (key f) = None \<and> \<not> required f) \<or>
         (\<exists>s. map_of inp (key f) = Some (JStr s) \<and> s \<noteq> []
              \<and> (\<forall>r \<in> set (rules f). string_rule e f s r = []))"
proof (cases "map_of inp (key f)")
  case None
  with assms show ?thesis by (simp add: check_field_def split: if_splits)
next
  case (Some v)
  with assms show ?thesis
    by (cases v) (auto simp: check_field_def split: if_splits)
qed

lemma idParams_valid:
  assumes "validateRequest e idParamsSchema params = Inr ()"
  shows "\<exists>i. id_of params = Some i \<and> map_of params ''id'' = Some (JStr i) \<and> is_guid e i"
proof -
  let ?f = "hd idParamsSchema"
  have "check_field e params ?f = []"
    using assms by (simp add: validateRequest_ok idParamsSchema_def)
  from check_string_ok [OF this] show ?thesis
    by (auto simp: idParamsSchema_def id_of_def split: if_splits)
qed


lemma createUser_valid:
  assumes "validateRequest e createUserSchema body = Inr ()"
  shows "\<exists>n m. CreateUserRequest_of body
            = Some \<lparr>CreateUserRequest.name = n, email = m, age = map_of body ''age''\<rparr>
          \<and> map_of body ''name'' = Some (JStr n) \<and> map_of body ''email'' = Some (JStr m)
          \<and> is_email e m \<and> 2 \<le> length n \<and> length n \<le> 100"
proof -
  have n: "check_field e body (createUserSchema ! 0) = []"
   and m: "check_field e body (createUserSchema ! 1) = []"
    using assms by (simp_all add: validateRequest_ok createUserSchema_def)
  from check_string_ok [OF n] check_string_ok [OF m] show ?thesis
    by (auto simp: createUserSchema_def CreateUserRequest_of_def split: if_splits)
qed


lemma no_row_iff: "filter (\<lambda>u. id' u = i) us = [] \<longleftrightarrow> i \<notin> set (map id' us)"
  by (auto simp: filter_empty_conv)

lemma state_same_users [simp]: "st\<lparr>users := users st, log := l\<rparr> = st\<lparr>log := l\<rparr>"
  by simp



subsection \<open>Updating a user\<close>







subsection \<open>Reading and creating a user\<close>

lemma resolve_createdAt: "resolve (Unquoted ''createdAt'') = ''createdat''"
  by code_simp

lemma first_row_filter: "first_row (Rows (filter P us)) = find P us"
  by (induction us) simp_all

lemma find_id_Some:
  "i \<in> set (map id' us) \<Longrightarrow> \<exists>u. find (\<lambda>u. id' u = i) us = Some u \<and> id' u = i \<and> u \<in> set us"
  by (induction us) auto

lemma get_user_up:
  assumes "\<not> down st (length (log st))"
  shows "get_user e i st =
           (if i \<in> set (map id' (users st))
            then Inr \<lparr>ok_status = 200, ok_json = UserJson (find (\<lambda>u. id' u = i) (users st))\<rparr>
            else Inl (Http (NotFoundError e (Some ''User not found''))),
            st\<lparr>log := log st @ [(SelectById i, True)]\<rparr>)"
proof (cases "filter (\<lambda>u. id' u = i) (users st) = []")
  case True
  then have "i \<notin> set (map id' (users st))" by (simp add: no_row_iff)
  with True assms show ?thesis
    by (simp add: get_user_def get_user_try_def query_up catch_def NotFoundError_def
        HttpError_as_def)
next
  case False
  then have "i \<in> set (map id' (users st))" by (simp add: no_row_iff)
  with False assms show ?thesis
    by (simp add: get_user_def get_user_try_def query_up catch_def first_row_filter)
qed

lemma post_user_conflict:
  assumes "\<not> down st (length (log st))"
    and "CreateUserRequest.email r \<in> set (map User.email (users st))"
  shows "post_user e r now st =
           (Inl (Http (ConflictError e (Some ''Email already exists''))),
            st\<lparr>log := log st @ [(SelectIdByEmail (CreateUserRequest.email r), True)],
               issued := Suc (issued st)\<rparr>)"
proof -
  have "filter (\<lambda>u. User.email u = CreateUserRequest.email r) (users st) \<noteq> []"
    using assms(2) by (auto simp: filter_empty_conv)
  then show ?thesis
    using assms(1)
    by (simp add: post_user_def post_user_try_def query_def catch_def Let_def
        ConflictError_def HttpError_as_def)
qed

lemma post_user_success:
  assumes "post_user e r now st = (Inr ok, st')"
  shows "\<exists>a. age_column e (or_null (CreateUserRequest.age r)) = Some a
           \<and> ok = \<lparr>ok_status = 201,
                   ok_json = UserJson (Some \<lparr>id' = uuidv4 e (issued st),
                     User.name = CreateUserRequest.name r, User.email = CreateUserRequest.email r,
                     User.age = a, createdAt = pg_timestamp e now,
                     updatedAt = pg_timestamp e now\<rparr>)\<rparr>
           \<and> users st' = users st @ [\<lparr>id' = uuidv4 e (issued st),
                     User.name = CreateUserRequest.name r, User.email = CreateUserRequest.email r,
                     User.age = a, createdAt = pg_timestamp e now,
                     updatedAt = pg_timestamp e now\<rparr>]
           \<and> issued st' = Suc (issued st)
           \<and> uuidv4 e (issued st) \<notin> set (map id' (users st))
           \<and> CreateUserRequest.email r \<notin> set (map User.email (users st))"
  using assms
  by (auto simp: post_user_def post_user_try_def query_def catch_def Let_def
      split: if_splits option.splits sum.splits prod.splits)

lemma POST_users_valid:
  assumes "validateRequest e createUserSchema body = Inr ()"
  shows "\<exists>n m. map_of body ''name'' = Some (JStr n) \<and> map_of body ''email'' = Some (JStr m)
           \<and> POST_users e body now st
              = respond e (post_user e \<lparr>CreateUserRequest.name = n, email = m,
                                         age = map_of body ''age''\<rparr> now st)"
  using createUser_valid [OF assms] assms by (auto simp: POST_users_def)

lemma POST_users_Success:
  assumes "fst (POST_users e body now st) = Success ok"
  shows "\<exists>n m. validateRequest e createUserSchema body = Inr ()
           \<and> map_of body ''name'' = Some (JStr n) \<and> map_of body ''email'' = Some (JStr m)
           \<and> post_user e \<lparr>CreateUserRequest.name = n, email = m, age = map_of body ''age''\<rparr> now st
              = (Inr ok, snd (POST_users e body now st))"
proof -
  have v: "validateRequest e createUserSchema body = Inr ()"
    using assms validateRequest_cases [of e createUserSchema body]
    by (auto simp: POST_users_def respond_def)
  from POST_users_valid [OF v, of now st] obtain n m where
    nm: "map_of body ''name'' = Some (JStr n)" "map_of body ''email'' = Some (JStr m)"
    and p: "POST_users e body now st
              = respond e (post_user e \<lparr>CreateUserRequest.name = n, email = m,
                                         age = map_of body ''age''\<rparr> now st)"
    by blast
  let ?r = "post_user e \<lparr>CreateUserRequest.name = n, email = m, age = map_of body ''age''\<rparr> now st"
  have "?r = (Inr ok, snd (POST_users e body now st))"
    using assms p by (cases ?r; cases "fst ?r") (auto simp: respond_def)
  with v nm show ?thesis by blast
qed

lemma example_create_valid:
  "validateRequest (example_env mode) createUserSchema
     [(''name'', JStr ''Test User''), (''email'', JStr m), (''age'', JNum (of_int a))] = Inr ()
   \<longleftrightarrow> m \<noteq> [] \<and> CHR ''@'' \<in> set m \<and> 0 \<le> a \<and> a \<le> 150"
  by (auto simp: validateRequest_ok createUserSchema_def check_field_def example_env_def)

lemma example_id_valid:
  "validateRequest (example_env mode) idParamsSchema [(''id'', JStr id1)] = Inr ()"
  by (simp add: validateRequest_ok idParamsSchema_def check_field_def example_env_def id1_def)

lemma example_up:
  "\<not> down (example_state us (\<lambda>n. False)) k"
  by (simp add: example_state_def)

lemma example_create:
  "fst (POST_users (example_env None)
          [(''name'', JStr ''Test User''), (''email'', JStr ''test@example.com''), (''age'', JNum (of_int 0))]
          ''2024-06-01T10:00:00.000Z'' (example_state [example_user ''1''] (\<lambda>n. False)))
     = Success \<lparr>ok_status = 201,
         ok_json = UserJson (Some \<lparr>id' = ''7f9c24e8-3b12-4fef-91e0-5d2a6b0c1d3e'',
           User.name = ''Test User'', User.email = ''test@example.com'', User.age = None,
           createdAt = ''2024-06-01T10:00:00.000Z'', updatedAt = ''2024-06-01T10:00:00.000Z''\<rparr>)\<rparr>"
proof -
  have v: "validateRequest (example_env None) createUserSchema
     [(''name'', JStr ''Test User''), (''email'', JStr ''test@example.com''), (''age'', JNum (of_int 0))] = Inr ()"
    using example_create_valid [of None "''test@example.com''" 0] by simp
  show ?thesis
    using v
    by (simp add: POST_users_def CreateUserRequest_of_def respond_def post_user_def
        post_user_try_def catch_def query_def example_state_def example_user_def
        example_env_def Let_def)
qed

text \<open>
  Claim C5. A \<open>POST\<close> request whose body passes the validation and whose email is
  the email of a row of the table fails, when the store answers the uniqueness query,
  with status 409 and code \<open>CONFLICT\<close>; the rows of the table are unchanged, and the
  uniqueness query is the only statement sent: the insert is not.
\<close>

theorem post_duplicate_email_conflict:
  assumes "validateRequest e createUserSchema body = Inr ()"
    and "map_of body ''email'' = Some (JStr m)"
    and "m \<in> set (map User.email (users st))"
    and "\<not> down st (length (log st))"
  shows "fails_with (fst (POST_users e body now st)) 409 ''CONFLICT''
       \<and> users (snd (POST_users e body now st)) = users st
       \<and> log (snd (POST_users e body now st)) = log st @ [(SelectIdByEmail m, True)]"
proof -
  from POST_users_valid [OF assms(1), of now st] assms(2) obtain n where
    p: "POST_users e body now st
          = respond e (post_user e \<lparr>CreateUserRequest.name = n, email = m,
                                     age = map_of body ''age''\<rparr> now st)"
    by auto
  show ?thesis
    using assms(3,4)
    by (simp add: p post_user_conflict respond_def fails_with_classes)
qed

theorem post_duplicate_email_conflict_witness:
  "validateRequest (example_env None) createUserSchema
     [(''name'', JStr ''Test User''), (''email'', JStr ''user1@example.com''), (''age'', JNum (of_int 25))]
     = Inr ()
   \<and> ''user1@example.com'' \<in> set (map User.email (users (example_state [example_user ''1''] (\<lambda>n. False))))
   \<and> fails_with (fst (POST_users (example_env None)
        [(''name'', JStr ''Test User''), (''email'', JStr ''user1@example.com''), (''age'', JNum (of_int 25))]
        ''2024-06-01T10:00:00.000Z'' (example_state [example_user ''1''] (\<lambda>n. False)))) 409 ''CONFLICT''
   \<and> users (snd (POST_users (example_env None)
        [(''name'', JStr ''Test User''), (''email'', JStr ''user1@example.com''), (''age'', JNum (of_int 25))]
        ''2024-06-01T10:00:00.000Z'' (example_state [example_user ''1''] (\<lambda>n. False))))
     = [example_user ''1'']"
proof -
  let ?body = "[(''name'', JStr ''Test User''), (''email'', JStr ''user1@example.com''),
                (''age'', JNum (of_int 25))]"
  let ?st = "example_state [example_user ''1''] (\<lambda>n. False)"
  have v: "validateRequest (example_env None) createUserSchema ?body = Inr ()"
    using example_create_valid [of None "''user1@example.com''" 25] by simp
  have m: "map_of ?body ''email'' = Some (JStr ''user1@example.com'')"
    by simp
  have u: "''user1@example.com'' \<in> set (map User.email (users ?st))"
    by (simp add: example_state_def example_user_def)
  have d: "\<not> down ?st (length (log ?st))"
    by (rule example_up)
  have s: "users ?st = [example_user ''1'']"
    by (simp add: example_state_def)
  show ?thesis
    using v u s post_duplicate_email_conflict [OF v m u d, where now = "''2024-06-01T10:00:00.000Z''"]
    by simp
qed

lemma uuidv4_repeats:
  assumes "\<forall>n. length (uuidv4 e n) = 36"
  shows "\<exists>j k. j < k \<and> uuidv4 e j = uuidv4 e k"
proof -
  have "finite {s :: string. set s \<subseteq> UNIV \<and> length s = 36}"
    by (rule finite_lists_length_eq) simp
  moreover have "range (uuidv4 e) \<subseteq> {s. set s \<subseteq> UNIV \<and> length s = 36}"
    using assms by auto
  ultimately have "finite (range (uuidv4 e))"
    by (rule rev_finite_subset)
  then have "\<not> inj (uuidv4 e)"
    using finite_imageD infinite_UNIV_nat by blast
  then obtain j k where jk: "j \<noteq> k" "uuidv4 e j = uuidv4 e k"
    by (auto simp: inj_def)
  show ?thesis
  proof (cases "j < k")
    case True
    with jk(2) show ?thesis by blast
  next
    case False
    with jk(1) have "k < j" by simp
    with jk(2) [symmetric] show ?thesis by blast
  qed
qed





lemma age_rules_ok:
  assumes "validateRequest e createUserSchema body = Inr ()"
    and "map_of body ''age'' = Some (JNum q)"
  shows "of_int \<lfloor>q\<rfloor> = q \<and> 0 \<le> q \<and> q \<le> 150"
proof -
  have "check_field e body (createUserSchema ! 2) = []"
    using assms(1) by (simp add: validateRequest_ok createUserSchema_def)
  then show ?thesis
    using assms(2)
    by (auto simp: check_field_def createUserSchema_def split: if_splits)
qed

text \<open>
  Claim C9. When the body of a \<open>POST\<close> request gives \<open>age\<close> as the number \<open>a\<close>
  and the request creates a user, the row stored and the user returned have the age
  null when \<open>a\<close> is 0, and the age \<open>a\<close> otherwise; \<open>a\<close> is in the range from 0 to
  150, so every age from 1 to 150 is stored unchanged.
\<close>

theorem post_user_age_zero_is_null:
  assumes "map_of body ''age'' = Some (JNum (of_int a))"
    and "fst (POST_users e body now st) = Success ok"
  shows "\<exists>u. ok_json ok = UserJson (Some u)
           \<and> users (snd (POST_users e body now st)) = users st @ [u]
           \<and> User.age u = (if a = 0 then None else Some a)
           \<and> 0 \<le> a \<and> a \<le> 150"
proof -
  from POST_users_Success [OF assms(2)] obtain n m where
    v: "validateRequest e createUserSchema body = Inr ()"
    and p: "post_user e \<lparr>CreateUserRequest.name = n, email = m, age = map_of body ''age''\<rparr> now st
       = (Inr ok, snd (POST_users e body now st))"
    by blast
  from age_rules_ok [OF v assms(1)] have range: "0 \<le> a" "a \<le> 150"
    by simp_all
  from post_user_success [OF p] obtain b where
    b: "age_column e (or_null (Some (JNum (of_int a)))) = Some b"
    and ok: "ok = \<lparr>ok_status = 201,
              ok_json = UserJson (Some \<lparr>id' = uuidv4 e (issued st), User.name = n, User.email = m,
                          User.age = b, createdAt = pg_timestamp e now,
                          updatedAt = pg_timestamp e now\<rparr>)\<rparr>"
    and us: "users (snd (POST_users e body now st))
               = users st @ [\<lparr>id' = uuidv4 e (issued st), User.name = n, User.email = m,
                          User.age = b, createdAt = pg_timestamp e now,
                          updatedAt = pg_timestamp e now\<rparr>]"
    using assms(1) by auto
  from b have "b = (if a = 0 then None else Some a)"
    by (auto split: if_splits)
  with ok us range show ?thesis by simp
qed

theorem post_user_age_zero_is_null_witness:
  "map_of [(''name'', JStr ''Test User''), (''email'', JStr ''test@example.com''), (''age'', JNum (of_int 0))]
     ''age'' = Some (JNum (of_int 0))
   \<and> (\<exists>ok u. fst (POST_users (example_env None)
          [(''name'', JStr ''Test User''), (''email'', JStr ''test@example.com''), (''age'', JNum (of_int 0))]
          ''2024-06-01T10:00:00.000Z'' (example_state [example_user ''1''] (\<lambda>n. False))) = Success ok
        \<and> ok_json ok = UserJson (Some u) \<and> User.age u = None
        \<and> users (snd (POST_users (example_env None)
          [(''name'', JStr ''Test User''), (''email'', JStr ''test@example.com''), (''age'', JNum (of_int 0))]
          ''2024-06-01T10:00:00.000Z'' (example_state [example_user ''1''] (\<lambda>n. False))))
           = [example_user ''1'', u])"
proof -
  have a: "map_of [(''name'', JStr ''Test User''), (''email'', JStr ''test@example.com''),
                   (''age'', JNum (of_int 0))] ''age'' = Some (JNum (of_int 0))"
    by simp
  show ?thesis
    using a example_create post_user_age_zero_is_null [OF a example_create]
    by (auto simp: example_state_def)
qed

lemma GET_user_valid:
  assumes "validateRequest e idParamsSchema params = Inr ()" "id_of params = Some i"
  shows "GET_user e params st = respond e (get_user e i st)"
  using assms by (simp add: GET_user_def)

text \<open>
  Claim C8. For an id that passes the validation and is the id of a row, two executions
  of \<open>GET /:id\<close> one after the other, the store answering both, return the same
  response: status 200 and the first row with that id; the execution leaves the rows of
  the table as they were.
\<close>

theorem get_user_repeatable:
  assumes "validateRequest e idParamsSchema params = Inr ()"
    and "id_of params = Some i"
    and "i \<in> set (map id' (users st))"
    and "\<not> down st (length (log st))"
    and "\<not> down st (Suc (length (log st)))"
  shows "fst (GET_user e params (snd (GET_user e params st))) = fst (GET_user e params st)
       \<and> (\<exists>u. fst (GET_user e params st) = Success \<lparr>ok_status = 200, ok_json = UserJson (Some u)\<rparr>
              \<and> id' u = i \<and> u \<in> set (users st))
       \<and> users (snd (GET_user e params st)) = users st"
proof -
  let ?st1 = "st\<lparr>log := log st @ [(SelectById i, True)]\<rparr>"
  obtain u where u: "find (\<lambda>u. id' u = i) (users st) = Some u" "id' u = i" "u \<in> set (users st)"
    using find_id_Some [OF assms(3)] by blast
  have 1: "GET_user e params st
             = (Success \<lparr>ok_status = 200, ok_json = UserJson (Some u)\<rparr>, ?st1)"
    using assms(3,4) u(1)
    by (simp add: GET_user_valid [OF assms(1,2)] get_user_up respond_def)
  have "\<not> down ?st1 (length (log ?st1))"
    using assms(5) by simp
  then have 2: "GET_user e params ?st1
             = (Success \<lparr>ok_status = 200, ok_json = UserJson (Some u)\<rparr>,
                ?st1\<lparr>log := log ?st1 @ [(SelectById i, True)]\<rparr>)"
    using assms(3) u(1)
    by (simp add: GET_user_valid [OF assms(1,2)] get_user_up respond_def)
  show ?thesis
    using 1 2 u by simp
qed

theorem get_user_repeatable_witness:
  "validateRequest (example_env None) idParamsSchema [(''id'', JStr id1)] = Inr ()
   \<and> id1 \<in> set (map id' (users (example_state [example_user ''2'', example_user ''1''] (\<lambda>n. False))))
   \<and> fst (GET_user (example_env None) [(''id'', JStr id1)]
            (snd (GET_user (example_env None) [(''id'', JStr id1)]
                    (example_state [example_user ''2'', example_user ''1''] (\<lambda>n. False)))))
     = fst (GET_user (example_env None) [(''id'', JStr id1)]
              (example_state [example_user ''2'', example_user ''1''] (\<lambda>n. False)))
   \<and> users (snd (GET_user (example_env None) [(''id'', JStr id1)]
                    (example_state [example_user ''2'', example_user ''1''] (\<lambda>n. False))))
     = [example_user ''2'', example_user ''1'']"
proof -
  let ?st = "example_state [example_user ''2'', example_user ''1''] (\<lambda>n. False)"
  have i: "id_of [(''id'', JStr id1)] = Some id1"
    by (simp add: id_of_def)
  have u: "id1 \<in> set (map id' (users ?st))"
    by (simp add: example_state_def example_user_def id1_def)
  have s: "users ?st = [example_user ''2'', example_user ''1'']"
    by (simp add: example_state_def)
  show ?thesis
    using example_id_valid [of None] u s
      get_user_repeatable [OF example_id_valid [of None] i u example_up example_up]
    by simp
qed

subsection \<open>Failures of the store\<close>

lemma query_log:
  assumes "query e s st = (r, st')"
  shows "log st' = log st @ [(s, \<not> isl r)]"
  using assms by (auto simp: query_def split: if_splits sum.splits prod.splits)

lemma store_failed_same [simp]: "\<not> store_failed st st"
  by (simp add: store_failed_def)

lemma store_failed_1:
  "log st' = log st @ [(s, b)] \<Longrightarrow> store_failed st st' \<longleftrightarrow> \<not> b"
  by (simp add: store_failed_def)

lemma store_failed_2:
  "log st' = (log st @ [(s, b)]) @ [(s', b')] \<Longrightarrow> store_failed st st' \<longleftrightarrow> \<not> b \<or> \<not> b'"
  by (simp add: store_failed_def)

lemma catch_Other:
  "catch e cs msg (Inl (Other m), st) = (Inl (Http (HttpError e msg (Some 500) (Some ''DATABASE_ERROR''))), st)"
  by (induction cs) (simp_all add: catch_def)

lemma get_user_failure:
  assumes "store_failed st (snd (get_user e i st))"
  shows "fst (get_user e i st)
           = Inl (Http (HttpError e ''Failed to fetch user'' (Some 500) (Some ''DATABASE_ERROR'')))"
proof (cases "query e (SelectById i) st")
  case (Pair r st1)
  from query_log [OF this] have l: "log st1 = log st @ [(SelectById i, \<not> isl r)]" .
  show ?thesis
    using assms Pair store_failed_1 [OF l]
    by (cases r) (auto simp: get_user_def get_user_try_def catch_Other catch_def split: if_splits)
qed

lemma delete_user_failure:
  assumes "store_failed st (snd (delete_user e i st))"
  shows "fst (delete_user e i st)
           = Inl (Http (HttpError e ''Failed to delete user'' (Some 500) (Some ''DATABASE_ERROR'')))"
proof (cases "query e (DeleteUser i) st")
  case (Pair r st1)
  from query_log [OF this] have l: "log st1 = log st @ [(DeleteUser i, \<not> isl r)]" .
  show ?thesis
    using assms Pair store_failed_1 [OF l]
    by (cases r) (auto simp: delete_user_def delete_user_try_def catch_Other catch_def split: if_splits)
qed

lemma exec_SelectPage:
  "exec e (SelectPage (Unquoted ''createdAt'') l off) us
     = Inl (undefined_column (Unquoted ''createdAt''))"
proof -
  have "resolve (Unquoted ''createdAt'') \<noteq> ''createdAt''"
    by (simp only: resolve_createdAt) simp
  then show ?thesis
    by (simp del: resolve.simps)
qed

lemma query_SelectPage:
  "\<exists>m. query e (SelectPage (Unquoted ''createdAt'') l off) st
         = (Inl m, st\<lparr>log := log st @ [(SelectPage (Unquoted ''createdAt'') l off, False)]\<rparr>)"
  by (simp add: query_def exec_SelectPage del: exec.simps)

lemma get_users_failure:
  "fst (get_users e q st)
     = Inl (Http (HttpError e ''Failed to fetch users'' (Some 500) (Some ''DATABASE_ERROR'')))"
proof (cases "query e SelectCount st")
  case (Pair r st1)
  obtain m where m: "query e (SelectPage (Unquoted ''createdAt'') (parseInt_or (limit q) 10)
      ((parseInt_or (page q) 1 - 1) * parseInt_or (limit q) 10)) st1
         = (Inl m, st1\<lparr>log := log st1 @ [(SelectPage (Unquoted ''createdAt'') (parseInt_or (limit q) 10)
      ((parseInt_or (page q) 1 - 1) * parseInt_or (limit q) 10), False)]\<rparr>)"
    using query_SelectPage by blast
  show ?thesis
    using Pair m
    by (cases r) (simp_all add: get_users_def get_users_try_def catch_Other Let_def)
qed

lemma post_user_try_failure:
  assumes "store_failed st (snd (post_user_try e r now st))"
  shows "\<exists>m. fst (post_user_try e r now st) = Inl (Other m)"
proof -
  let ?st0 = "st\<lparr>issued := Suc (issued st)\<rparr>"
  let ?s1 = "SelectIdByEmail (CreateUserRequest.email r)"
  let ?s2 = "InsertUser (Quoted ''createdAt'') (Quoted ''updatedAt'') (uuidv4 e (issued st))
               (CreateUserRequest.name r) (CreateUserRequest.email r)
               (or_null (CreateUserRequest.age r)) now now"
  obtain r1 st1 where q1: "query e ?s1 ?st0 = (r1, st1)"
    by (cases "query e ?s1 ?st0")
  obtain r2 st2 where q2: "query e ?s2 st1 = (r2, st2)"
    by (cases "query e ?s2 st1")
  from query_log [OF q1] have l1: "log st1 = log st @ [(?s1, \<not> isl r1)]" by simp
  from query_log [OF q2] l1 have l2: "log st2 = (log st @ [(?s1, \<not> isl r1)]) @ [(?s2, \<not> isl r2)]"
    by simp
  show ?thesis
  proof (cases r1)
    case (Inl m)
    with q1 show ?thesis by (simp add: post_user_try_def Let_def)
  next
    case r1: (Inr existingUser)
    show ?thesis
    proof (cases "row_count existingUser > 0")
      case True
      with assms q1 r1 store_failed_1 [OF l1] show ?thesis
        by (simp add: post_user_try_def Let_def)
    next
      case False
      with assms q1 q2 r1 store_failed_2 [OF l2] show ?thesis
        by (cases r2) (simp_all add: post_user_try_def Let_def)
    qed
  qed
qed

lemma email_check_failure:
  assumes "email_check e i r st = (x, st')"
  shows "(x = Inr () \<and> st' = st)
       \<or> (\<exists>s b. log st' = log st @ [(s, b)]
             \<and> (if b then x = Inr () \<or> (\<exists>h. x = Inl (Http h)) else (\<exists>m. x = Inl (Other m))))"
proof (cases "UpdateUserRequest.email r")
  case None
  with assms show ?thesis by (simp add: email_check_def)
next
  case (Some m)
  show ?thesis
  proof (cases "m = []")
    case True
    with assms Some show ?thesis by (simp add: email_check_def)
  next
    case False
    obtain r1 st1 where q: "query e (SelectIdByEmailNotId m i) st = (r1, st1)"
      by (cases "query e (SelectIdByEmailNotId m i) st")
    from query_log [OF q] have l: "log st1 = log st @ [(SelectIdByEmailNotId m i, \<not> isl r1)]" .
    have "st' = st1"
      using assms Some False q by (cases r1) (simp_all add: email_check_def split: if_splits)
    moreover have "if \<not> isl r1 then x = Inr () \<or> (\<exists>h. x = Inl (Http h)) else (\<exists>m. x = Inl (Other m))"
      using assms Some False q by (cases r1) (auto simp: email_check_def split: if_splits)
    ultimately show ?thesis using l by blast
  qed
qed

lemma put_user_try_failure:
  assumes "store_failed st (snd (put_user_try e i r now st))"
  shows "\<exists>m. fst (put_user_try e i r now st) = Inl (Other m)"
proof (cases "query e (SelectIdById i) st")
  case q1: (Pair r1 st1)
  from query_log [OF q1] have l1: "log st1 = log st @ [(SelectIdById i, \<not> isl r1)]" .
  show ?thesis
  proof (cases r1)
    case (Inl m)
    with q1 show ?thesis by (simp add: put_user_try_def)
  next
    case (Inr existingUser)
    show ?thesis
    proof (cases "row_count existingUser = 0")
      case True
      with assms q1 Inr l1 show ?thesis
        by (simp add: put_user_try_def store_failed_def)
    next
      case False
      obtain x st2 where ec: "email_check e i r st1 = (x, st2)"
        by (cases "email_check e i r st1")
      show ?thesis
      proof (cases x)
        case (Inl err)
        with assms q1 Inr False ec l1 email_check_failure [OF ec] show ?thesis
          by (auto simp: put_user_try_def store_failed_def split: if_splits)
      next
        case x: (Inr u)
        let ?s = "UpdateUser (updates_of r @ [SetUpdatedAt (Quoted ''updatedAt'') now]) i"
        obtain r3 st3 where q3: "query e ?s st2 = (r3, st3)"
          by (cases "query e ?s st2")
        from query_log [OF q3] have l3: "log st3 = log st2 @ [(?s, \<not> isl r3)]" .
        have l2: "\<not> list_ex (\<lambda>entry. \<not> snd entry) (drop (length (log st)) (log st2))"
          using email_check_failure [OF ec] x l1 Inr
          by (auto split: if_splits)
        have len: "length (log st) \<le> length (log st2)"
          using email_check_failure [OF ec] l1 by auto
        show ?thesis
          using assms q1 Inr False ec x q3 l3 l2 len
          by (cases r3)
             (auto simp: put_user_try_def store_failed_def Let_def split: if_splits)
      qed
    qed
  qed
qed

lemma catch_state: "snd (catch e cs msg r) = snd r"
  by (cases r; cases "fst r") (auto simp: catch_def)

lemma catch_failure:
  assumes "\<exists>m. fst r = Inl (Other m)"
  shows "fst (catch e cs msg r) = Inl (Http (HttpError e msg (Some 500) (Some ''DATABASE_ERROR'')))"
    and "snd (catch e cs msg r) = snd r"
  using assms by (cases r; cases "fst r"; auto simp: catch_Other)+

lemma post_user_failure:
  assumes "store_failed st (snd (post_user e r now st))"
  shows "fst (post_user e r now st)
           = Inl (Http (HttpError e ''Failed to create user'' (Some 500) (Some ''DATABASE_ERROR'')))"
  using assms post_user_try_failure [of st e r now]
  by (simp add: post_user_def catch_state catch_failure)

lemma put_user_failure:
  assumes "store_failed st (snd (put_user e i r now st))"
  shows "fst (put_user e i r now st)
           = Inl (Http (HttpError e ''Failed to update user'' (Some 500) (Some ''DATABASE_ERROR'')))"
  using assms put_user_try_failure [of st e i r now]
  by (simp add: put_user_def catch_state catch_failure)


lemma respond_state: "snd (respond e r) = snd r"
  by (cases r; cases "fst r") (auto simp: respond_def)

lemma respond_Inl: "fst r = Inl err \<Longrightarrow> fst (respond e r) = Failure (errorHandler e err)"
  by (cases r) (auto simp: respond_def)

lemma respond_database_error:
  assumes "fst r = Inl (Http (HttpError e msg (Some 500) (Some ''DATABASE_ERROR'')))"
  shows "fails_with (fst (respond e r)) 500 ''DATABASE_ERROR''"
  by (simp add: respond_Inl [OF assms] fails_with_classes)

lemma GET_users_failure:
  assumes "store_failed st (snd (GET_users e q st))"
  shows "fails_with (fst (GET_users e q st)) 500 ''DATABASE_ERROR''"
proof (cases "validateRequest e paginationSchema q")
  case (Inl err)
  with assms show ?thesis by (simp add: GET_users_def respond_def)
next
  case (Inr u)
  show ?thesis
  proof (cases "PaginationQuery_of q")
    case None
    with assms Inr show ?thesis by (simp add: GET_users_def respond_def)
  next
    case (Some pq)
    with Inr show ?thesis
      by (simp add: GET_users_def respond_database_error [OF get_users_failure])
  qed
qed

lemma GET_user_failure:
  assumes "store_failed st (snd (GET_user e params st))"
  shows "fails_with (fst (GET_user e params st)) 500 ''DATABASE_ERROR''"
proof (cases "validateRequest e idParamsSchema params")
  case (Inl err)
  with assms show ?thesis by (simp add: GET_user_def respond_def)
next
  case (Inr u)
  show ?thesis
  proof (cases "id_of params")
    case None
    with assms Inr show ?thesis by (simp add: GET_user_def respond_def)
  next
    case (Some i)
    with assms Inr have "store_failed st (snd (get_user e i st))"
      by (simp add: GET_user_def respond_state)
    from respond_database_error [OF get_user_failure [OF this]] Some Inr show ?thesis
      by (simp add: GET_user_def)
  qed
qed

lemma DELETE_user_failure:
  assumes "store_failed st (snd (DELETE_user e params st))"
  shows "fails_with (fst (DELETE_user e params st)) 500 ''DATABASE_ERROR''"
proof (cases "validateRequest e idParamsSchema params")
  case (Inl err)
  with assms show ?thesis by (simp add: DELETE_user_def respond_def)
next
  case (Inr u)
  show ?thesis
  proof (cases "id_of params")
    case None
    with assms Inr show ?thesis by (simp add: DELETE_user_def respond_def)
  next
    case (Some i)
    with assms Inr have "store_failed st (snd (delete_user e i st))"
      by (simp add: DELETE_user_def respond_state)
    from respond_database_error [OF delete_user_failure [OF this]] Some Inr show ?thesis
      by (simp add: DELETE_user_def)
  qed
qed

lemma POST_users_failure:
  assumes "store_failed st (snd (POST_users e body now st))"
  shows "fails_with (fst (POST_users e body now st)) 500 ''DATABASE_ERROR''"
proof (cases "validateRequest e createUserSchema body")
  case (Inl err)
  with assms show ?thesis by (simp add: POST_users_def respond_def)
next
  case (Inr u)
  show ?thesis
  proof (cases "CreateUserRequest_of body")
    case None
    with assms Inr show ?thesis by (simp add: POST_users_def respond_def)
  next
    case (Some r)
    with assms Inr have "store_failed st (snd (post_user e r now st))"
      by (simp add: POST_users_def respond_state)
    from respond_database_error [OF post_user_failure [OF this]] Some Inr show ?thesis
      by (simp add: POST_users_def)
  qed
qed

lemma PUT_user_failure:
  assumes "store_failed st (snd (PUT_user e params body now st))"
  shows "fails_with (fst (PUT_user e params body now st)) 500 ''DATABASE_ERROR''"
proof (cases "validateRequest e idParamsSchema params")
  case (Inl err)
  with assms show ?thesis by (simp add: PUT_user_def respond_def)
next
  case p: (Inr u)
  show ?thesis
  proof (cases "validateRequest e updateUserSchema body")
    case (Inl err)
    with assms p show ?thesis by (simp add: PUT_user_def respond_def)
  next
    case b: (Inr u')
    show ?thesis
    proof (cases "id_of params")
      case None
      with assms p b show ?thesis by (simp add: PUT_user_def respond_def)
    next
      case i: (Some i)
      show ?thesis
      proof (cases "UpdateUserRequest_of body")
        case None
        with assms p b i show ?thesis by (simp add: PUT_user_def respond_def)
      next
        case (Some r)
        with assms p b i have "store_failed st (snd (put_user e i r now st))"
          by (simp add: PUT_user_def respond_state)
        from respond_database_error [OF put_user_failure [OF this]] Some p b i show ?thesis
          by (simp add: PUT_user_def)
      qed
    qed
  qed
qed

text \<open>
  Claim C6, as amended. Whenever a statement sent to the store during a request fails
  (the store is unreachable, or the statement raises an error), the response of each of
  the five user routes has status 500 and the code \<open>DATABASE_ERROR\<close>: every handler
  catches the error of the store and throws an \<open>HttpError\<close> with that code.
\<close>

theorem store_failure_is_database_error:
  "(store_failed st (snd (GET_users e q st))
      \<longrightarrow> fails_with (fst (GET_users e q st)) 500 ''DATABASE_ERROR'')
   \<and> (store_failed st (snd (GET_user e params st))
      \<longrightarrow> fails_with (fst (GET_user e params st)) 500 ''DATABASE_ERROR'')
   \<and> (store_failed st (snd (POST_users e body now st))
      \<longrightarrow> fails_with (fst (POST_users e body now st)) 500 ''DATABASE_ERROR'')
   \<and> (store_failed st (snd (PUT_user e params body now st))
      \<longrightarrow> fails_with (fst (PUT_user e params body now st)) 500 ''DATABASE_ERROR'')
   \<and> (store_failed st (snd (DELETE_user e params st))
      \<longrightarrow> fails_with (fst (DELETE_user e params st)) 500 ''DATABASE_ERROR'')"
  using GET_users_failure GET_user_failure POST_users_failure PUT_user_failure
    DELETE_user_failure
  by blast

lemma example_delete_down:
  "snd (DELETE_user (example_env None) [(''id'', JStr id1)]
          (example_state [example_user ''1''] (\<lambda>n. True)))
     = (example_state [example_user ''1''] (\<lambda>n. True))\<lparr>log := [(DeleteUser id1, False)]\<rparr>"
  using example_id_valid [of None]
  by (simp add: DELETE_user_def id_of_def respond_state delete_user_def catch_state
      delete_user_try_def query_def example_state_def)

theorem store_failure_is_database_error_witness:
  "store_failed (example_state [example_user ''1''] (\<lambda>n. True))
     (snd (DELETE_user (example_env None) [(''id'', JStr id1)]
            (example_state [example_user ''1''] (\<lambda>n. True))))
   \<and> fails_with (fst (DELETE_user (example_env None) [(''id'', JStr id1)]
            (example_state [example_user ''1''] (\<lambda>n. True)))) 500 ''DATABASE_ERROR''"
proof -
  have f: "store_failed (example_state [example_user ''1''] (\<lambda>n. True))
     (snd (DELETE_user (example_env None) [(''id'', JStr id1)]
            (example_state [example_user ''1''] (\<lambda>n. True))))"
    by (simp add: example_delete_down) (simp add: store_failed_def example_state_def)
  show ?thesis
    using f store_failure_is_database_error [of "example_state [example_user ''1''] (\<lambda>n. True)"
        "example_env None" "[]" "[(''id'', JStr id1)]" "[]" "''''"]
    by blast
qed

text \<open>
  Claim C6 as stated fails: with the store unreachable, \<open>GET /:id\<close> answers with
  the code \<open>DATABASE_ERROR\<close>, not \<open>INTERNAL_SERVER_ERROR\<close>.
\<close>

theorem store_failure_code_counterexample:
  "store_failed (example_state [example_user ''1''] (\<lambda>n. True))
     (snd (GET_user (example_env None) [(''id'', JStr id1)]
            (example_state [example_user ''1''] (\<lambda>n. True))))
   \<and> fst (GET_user (example_env None) [(''id'', JStr id1)]
            (example_state [example_user ''1''] (\<lambda>n. True)))
     = Failure \<lparr>res_status = 500,
         res_json = \<lparr>success = False, error = ''Something went wrong'',
                     body_code = Some (CodeStr ''DATABASE_ERROR''), body_stack = None\<rparr>\<rparr>
   \<and> \<not> fails_with (fst (GET_user (example_env None) [(''id'', JStr id1)]
            (example_state [example_user ''1''] (\<lambda>n. True)))) 500 ''INTERNAL_SERVER_ERROR''"
proof -
  have g: "GET_user (example_env None) [(''id'', JStr id1)]
            (example_state [example_user ''1''] (\<lambda>n. True))
        = (Failure (errorHandler (example_env None)
             (Http (HttpError (example_env None) ''Failed to fetch user'' (Some 500) (Some ''DATABASE_ERROR'')))),
           (example_state [example_user ''1''] (\<lambda>n. True))\<lparr>log := [(SelectById id1, False)]\<rparr>)"
    using example_id_valid [of None]
    by (simp add: GET_user_def id_of_def respond_def get_user_def catch_def
      get_user_try_def query_def example_state_def)
  show ?thesis
    unfolding g fst_conv snd_conv
    by (simp add: errorHandler_Http HttpError_def HttpError_as_def fails_with_def
        store_failed_def example_state_def)
qed

subsection \<open>The listing\<close>

lemma example_pagination_valid:
  "validateRequest (example_env None) paginationSchema
     [(''page'', JStr ''1''), (''limit'', JStr ''2'')] = Inr ()"
  by (simp add: validateRequest_ok paginationSchema_def check_field_def example_env_def
      parseInt_def is_space_def is_digit_def digit_of_def digits_value_def)

lemma listing_never_succeeds: "fst (GET_users e q st) \<noteq> Success ok"
proof (cases "validateRequest e paginationSchema q")
  case (Inl err)
  then show ?thesis by (simp add: GET_users_def respond_def)
next
  case (Inr u)
  show ?thesis
  proof (cases "PaginationQuery_of q")
    case None
    with Inr show ?thesis by (simp add: GET_users_def respond_def)
  next
    case (Some pq)
    with Inr show ?thesis
      by (simp add: GET_users_def respond_Inl [OF get_users_failure])
  qed
qed

text \<open>
  Claim C4, on the code. The listing query orders by the identifier \<open>createdAt\<close>
  written without quotes, which the store folds to \<open>createdat\<close>; the table has no
  such column (the migration, the insert and the update write \<open>"createdAt"\<close> in
  quotes), so the statement fails and the handler answers 500 \<open>DATABASE_ERROR\<close>.
  With five users stored, \<open>page=1\<close> and \<open>limit=2\<close>: the count succeeds, the page
  query is sent with limit 2 and offset 0 and fails, where the claim (and the
  integration test of the pagination) expects status 200 with two users.
\<close>

theorem listing_page_of_five_users_fails:
  "fails_with (fst (GET_users (example_env None) [(''page'', JStr ''1''), (''limit'', JStr ''2'')]
                      (example_state five_users (\<lambda>n. False)))) 500 ''DATABASE_ERROR''
   \<and> log (snd (GET_users (example_env None) [(''page'', JStr ''1''), (''limit'', JStr ''2'')]
                      (example_state five_users (\<lambda>n. False))))
     = [(SelectCount, True), (SelectPage (Unquoted ''createdAt'') 2 0, False)]"
proof -
  have p: "PaginationQuery_of [(''page'', JStr ''1''), (''limit'', JStr ''2'')]
             = Some \<lparr>page = Some ''1'', limit = Some ''2''\<rparr>"
    by (simp add: PaginationQuery_of_def)
  have n: "parseInt_or (Some ''1'') 1 = 1" "parseInt_or (Some ''2'') 10 = 2"
    by (simp_all add: parseInt_or_def parseInt_def is_space_def is_digit_def digit_of_def
        digits_value_def)
  let ?st = "example_state five_users (\<lambda>n. False)"
  let ?st1 = "?st\<lparr>users := five_users, log := log ?st @ [(SelectCount, True)]\<rparr>"
  have c: "query (example_env None) SelectCount ?st = (Inr (Count 5), ?st1)"
    by (simp add: query_def example_state_def five_users_def)
  obtain m where m: "query (example_env None) (SelectPage (Unquoted ''createdAt'') 2 0) ?st1
        = (Inl m, ?st1\<lparr>log := log ?st1 @ [(SelectPage (Unquoted ''createdAt'') 2 0, False)]\<rparr>)"
    using query_SelectPage by blast
  have "get_users_try (example_env None) \<lparr>page = Some ''1'', limit = Some ''2''\<rparr> ?st
          = (Inl (Other m),
             ?st1\<lparr>log := log ?st1 @ [(SelectPage (Unquoted ''createdAt'') 2 0, False)]\<rparr>)"
    by (simp add: get_users_try_def n c m Let_def)
  then have l: "log (snd (get_users (example_env None) \<lparr>page = Some ''1'', limit = Some ''2''\<rparr> ?st))
     = [(SelectCount, True), (SelectPage (Unquoted ''createdAt'') 2 0, False)]"
    by (simp add: get_users_def catch_state example_state_def)
  show ?thesis
    using example_pagination_valid p l
    by (simp add: GET_users_def respond_state respond_database_error [OF get_users_failure])
qed

subsection \<open>The validation of a request\<close>

lemma validate_abortEarly:
  "length (validate e schema \<lparr>abortEarly = True, allowUnknown = a, stripUnknown = s\<rparr> inp) \<le> 1"
  by (simp add: validate_def Let_def)

lemma fail_path: "path (fail e f t) = [key f]"
  by (simp add: fail_def)

lemma string_rule_path: "d \<in> set (string_rule e f s r) \<Longrightarrow> path d = [key f]"
  by (cases r) (auto simp: fail_path split: if_splits)

lemma number_rule_path: "d \<in> set (number_rule e f q r) \<Longrightarrow> path d = [key f]"
  by (cases r) (auto simp: fail_path split: if_splits)

lemma check_value_path: "d \<in> set (check_value e f v) \<Longrightarrow> path d = [key f]"
  by (cases v; cases "base f")
     (auto simp: fail_path string_rule_path number_rule_path split: if_splits option.splits)

lemma check_field_path: "d \<in> set (check_field e inp f) \<Longrightarrow> path d = [key f]"
  by (auto simp: check_field_def fail_path check_value_path split: option.splits if_splits)

lemma validationErrors_fields:
  "set (map field (validationErrors e schema inp))
     = key ` {f \<in> set schema. check_field e inp f \<noteq> []}"
proof -
  have "set (map field (validationErrors e schema inp))
          = (\<Union>f \<in> set schema. (\<lambda>d. join ''.'' (path d)) ` set (check_field e inp f))"
    by (auto simp: validationErrors_def validate_def Let_def)
  also have "\<dots> = (\<Union>f \<in> set schema. (\<lambda>d. key f) ` set (check_field e inp f))"
    by (auto simp: check_field_path)
  also have "\<dots> = key ` {f \<in> set schema. check_field e inp f \<noteq> []}"
    by (auto simp: image_constant_conv)
  finally show ?thesis .
qed

lemma failing_field_reported:
  assumes "f \<in> set schema" and "check_field e inp f \<noteq> []"
  shows "key f \<in> set (map field (validationErrors e schema inp))"
  unfolding validationErrors_fields using assms by blast

lemma email_check_field:
  assumes "map_of inp ''email'' = Some v" and "\<forall>s. v = JStr s \<longrightarrow> \<not> is_email e s"
    and "key f = ''email''" "base f = StringT" "rules f = [Email]"
  shows "check_field e inp f \<noteq> []"
  using assms by (cases v) (auto simp: check_field_def)

lemma validateRequest_Inl:
  assumes "validationErrors e schema inp \<noteq> []"
  shows "\<exists>m. validateRequest e schema inp = Inl (Http (ValidationError e (Some m)))"
  using assms by (auto simp: validateRequest_def Let_def)


text \<open>
  Claim C3. For the two schemas with an email (\<open>createUserSchema\<close> and
  \<open>updateUserSchema\<close>) and every input whose \<open>email\<close> is not a string of the email
  grammar: the list of violations of \<open>validateRequest\<close> is not empty and has a
  violation on the field \<open>email\<close>; every key of the schema whose check fails has a
  violation in the list (the middleware passes \<open>abortEarly: false\<close>, so the first
  failure does not hide the others); and the \<open>POST\<close> and \<open>PUT\<close> routes answer
  400 \<open>VALIDATION_ERROR\<close> with the state of the service untouched: the handler
  does not run and no statement is sent to the store.
\<close>

theorem invalid_email_is_reported:
  assumes "schema = createUserSchema \<or> schema = updateUserSchema"
    and "map_of inp ''email'' = Some v"
    and "\<forall>s. v = JStr s \<longrightarrow> \<not> is_email e s"
  shows "validationErrors e schema inp \<noteq> []
       \<and> ''email'' \<in> set (map field (validationErrors e schema inp))
       \<and> (\<forall>f \<in> set schema. check_field e inp f \<noteq> []
             \<longrightarrow> key f \<in> set (map field (validationErrors e schema inp)))
       \<and> fails_with (fst (POST_users e inp now st)) 400 ''VALIDATION_ERROR''
       \<and> snd (POST_users e inp now st) = st
       \<and> fails_with (fst (PUT_user e params inp now st)) 400 ''VALIDATION_ERROR''
       \<and> snd (PUT_user e params inp now st) = st"
proof -
  have c: "check_field e inp (createUserSchema ! 1) \<noteq> []"
    using assms(2,3) by (intro email_check_field) (simp_all add: createUserSchema_def)
  have u: "check_field e inp (updateUserSchema ! 1) \<noteq> []"
    using assms(2,3) by (intro email_check_field) (simp_all add: updateUserSchema_def)
  have kc: "key (createUserSchema ! 1) = ''email''" "createUserSchema ! 1 \<in> set createUserSchema"
    by (simp_all add: createUserSchema_def)
  have ku: "key (updateUserSchema ! 1) = ''email''" "updateUserSchema ! 1 \<in> set updateUserSchema"
    by (simp_all add: updateUserSchema_def)
  have "''email'' \<in> set (map field (validationErrors e createUserSchema inp))"
    using failing_field_reported [OF kc(2) c] kc(1) by simp
  moreover have "''email'' \<in> set (map field (validationErrors e updateUserSchema inp))"
    using failing_field_reported [OF ku(2) u] ku(1) by simp
  ultimately have email: "''email'' \<in> set (map field (validationErrors e schema inp))"
    using assms(1) by blast
  have all: "\<forall>f \<in> set schema. check_field e inp f \<noteq> []
             \<longrightarrow> key f \<in> set (map field (validationErrors e schema inp))"
    using failing_field_reported by blast
  have ec: "validationErrors e createUserSchema inp \<noteq> []"
    and eu: "validationErrors e updateUserSchema inp \<noteq> []"
    using failing_field_reported [OF kc(2) c] failing_field_reported [OF ku(2) u]
    by auto
  have post: "fails_with (fst (POST_users e inp now st)) 400 ''VALIDATION_ERROR''
       \<and> snd (POST_users e inp now st) = st"
    using validateRequest_Inl [OF ec]
    by (auto simp: POST_users_def respond_def fails_with_classes)
  have put: "fails_with (fst (PUT_user e params inp now st)) 400 ''VALIDATION_ERROR''
       \<and> snd (PUT_user e params inp now st) = st"
    using validateRequest_Inl [OF eu] validateRequest_cases [of e idParamsSchema params]
    by (auto simp: PUT_user_def respond_def fails_with_classes)
  from email have "validationErrors e schema inp \<noteq> []" by auto
  with email all post put show ?thesis by blast
qed

theorem invalid_email_is_reported_witness:
  "map_of [(''name'', JStr ''B''), (''email'', JStr ''bob''), (''age'', JNum (of_int 200))] ''email''
     = Some (JStr ''bob'')
   \<and> \<not> is_email (example_env None) ''bob''
   \<and> map field (validationErrors (example_env None) createUserSchema
        [(''name'', JStr ''B''), (''email'', JStr ''bob''), (''age'', JNum (of_int 200))])
     = [''name'', ''email'', ''age'']
   \<and> fails_with (fst (POST_users (example_env None)
        [(''name'', JStr ''B''), (''email'', JStr ''bob''), (''age'', JNum (of_int 200))]
        ''2024-06-01T10:00:00.000Z'' (example_state [] (\<lambda>n. False)))) 400 ''VALIDATION_ERROR''
   \<and> snd (POST_users (example_env None)
        [(''name'', JStr ''B''), (''email'', JStr ''bob''), (''age'', JNum (of_int 200))]
        ''2024-06-01T10:00:00.000Z'' (example_state [] (\<lambda>n. False)))
     = example_state [] (\<lambda>n. False)"
proof -
  let ?inp = "[(''name'', JStr ''B''), (''email'', JStr ''bob''), (''age'', JNum (of_int 200))]"
  have m: "map_of ?inp ''email'' = Some (JStr ''bob'')"
    by simp
  have g: "\<forall>s. JStr ''bob'' = JStr s \<longrightarrow> \<not> is_email (example_env None) s"
    by (simp add: example_env_def)
  have f: "map field (validationErrors (example_env None) createUserSchema ?inp)
             = [''name'', ''email'', ''age'']"
    by (simp add: validationErrors_def validate_def check_field_def createUserSchema_def
        fail_def example_env_def)
  show ?thesis
    using m g f
      invalid_email_is_reported [OF disjI1 [OF refl] m g,
        where now = "''2024-06-01T10:00:00.000Z''" and st = "example_state [] (\<lambda>n. False)"]
    by simp
qed

subsection \<open>The arithmetic of the page, and when a user is created\<close>

text \<open>
  \<open>ceil_div\<close> is the ceiling of the quotient. For \<open>page=1\<close> and \<open>limit=2\<close> the
  handler computes the offset 0, and for 5 users 3 pages; without parameters it takes
  page 1 and limit 10.
\<close>

lemma ceil_div_ceiling: "ceil_div n d = \<lceil>(of_int n :: rat) / of_int d\<rceil>"
proof -
  have "\<lceil>(of_int n :: rat) / of_int d\<rceil> = - \<lfloor>(of_int (- n) :: rat) / of_int d\<rfloor>"
    by (simp add: ceiling_def)
  also have "\<dots> = - ((- n) div d)"
    by (simp only: floor_divide_of_int_eq)
  finally show ?thesis by (simp add: ceil_div_def)
qed

lemma page_arithmetic:
  "(parseInt_or (Some ''1'') 1 - 1) * parseInt_or (Some ''2'') 10 = 0"
  "ceil_div 5 (parseInt_or (Some ''2'') 10) = 3"
  "parseInt_or None 1 = 1" "parseInt_or None 10 = 10"
  by (simp_all add: ceil_div_def parseInt_or_def parseInt_def is_space_def is_digit_def
      digit_of_def digits_value_def)


text \<open>
  Every run of the \<open>POST\<close> handler takes one identifier from the generator. A request
  creates a user when its body is valid with a numeric or absent age, its email is new
  and at most 255 characters long, the identifier generated is not the id of a row, and
  the store answers both statements.
\<close>

lemma query_issued:
  assumes "query e s st = (r, st')"
  shows "issued st' = issued st"
  using assms by (auto simp: query_def split: if_splits sum.splits prod.splits)

lemma post_user_issued: "issued (snd (post_user e r now st)) = Suc (issued st)"
proof -
  let ?st0 = "st\<lparr>issued := Suc (issued st)\<rparr>"
  let ?s2 = "InsertUser (Quoted ''createdAt'') (Quoted ''updatedAt'') (uuidv4 e (issued st))
               (CreateUserRequest.name r) (CreateUserRequest.email r)
               (or_null (CreateUserRequest.age r)) now now"
  obtain r1 st1 where q1: "query e (SelectIdByEmail (CreateUserRequest.email r)) ?st0 = (r1, st1)"
    by (cases "query e (SelectIdByEmail (CreateUserRequest.email r)) ?st0")
  obtain r2 st2 where q2: "query e ?s2 st1 = (r2, st2)"
    by (cases "query e ?s2 st1")
  from query_issued [OF q1] have i1: "issued st1 = Suc (issued st)" by simp
  from query_issued [OF q2] i1 have i2: "issued st2 = Suc (issued st)" by simp
  show ?thesis
    using q1 q2 i1 i2
    by (cases r1; cases r2)
       (simp_all add: post_user_def catch_state post_user_try_def Let_def)
qed

lemma POST_users_creates:
  assumes "validateRequest e createUserSchema body = Inr ()"
    and "map_of body ''email'' = Some (JStr m)"
    and "map_of body ''age'' = None \<or> (\<exists>q. map_of body ''age'' = Some (JNum q))"
    and "m \<notin> set (map User.email (users st))"
    and "length m \<le> 255"
    and "uuidv4 e (issued st) \<notin> set (map id' (users st))"
    and "\<not> down st (length (log st))"
    and "\<not> down st (Suc (length (log st)))"
  shows "\<exists>ok. fst (POST_users e body now st) = Success ok \<and> ok_status ok = 201"
proof -
  from createUser_valid [OF assms(1)] assms(2) obtain n where
    r: "CreateUserRequest_of body
          = Some \<lparr>CreateUserRequest.name = n, email = m, age = map_of body ''age''\<rparr>"
    and n: "length n \<le> 100"
    by auto
  have a: "\<exists>a. age_column e (or_null (map_of body ''age'')) = Some a"
  proof (cases "map_of body ''age''")
    case None
    then show ?thesis by simp
  next
    case (Some v)
    with assms(3) obtain q where q: "v = JNum q" by auto
    with Some age_rules_ok [OF assms(1)] have "of_int \<lfloor>q\<rfloor> = q" by simp
    with Some q show ?thesis by simp
  qed
  then obtain a where a: "age_column e (or_null (map_of body ''age'')) = Some a" ..
  have f: "filter (\<lambda>u. User.email u = m) (users st) = []"
    using assms(4) by (auto simp: filter_empty_conv)
  show ?thesis
    using assms(1,4,5,6,7,8) r n a f
    by (simp add: POST_users_def respond_def post_user_def post_user_try_def catch_def
        query_def Let_def)
qed

end
